theory Spec2Isabelle
  imports Complex_Main "HOL-Library.Sublist"
begin

section \<open>JavaScript strings and the two regular-expression classes the script uses\<close>

text \<open>
  A JavaScript string is a sequence of UTF-16 code units. The model is \<^typ>\<open>string\<close>:
  each \<^typ>\<open>char\<close> is one code unit, so texts are restricted to code units below 256
  (ASCII and the Latin-1 supplement), where \<open>length\<close> is the JavaScript \<open>length\<close>.
  Inside that range the classes \<open>\w\<close> and \<open>\s\<close> and \<open>toLowerCase\<close> are exact:
  \<open>\w\<close> is \<open>[A-Za-z0-9_]\<close> (the expressions carry no \<open>u\<close> or \<open>i\<close> flag), \<open>\s\<close> is
  TAB, LF, VT, FF, CR, SPACE and U+00A0, and \<open>toLowerCase\<close> shifts \<open>A-Z\<close> and the
  capital letters U+00C0 .. U+00DE (U+00D7, the multiplication sign, apart).
\<close>

definition is_word_char :: "char \<Rightarrow> bool" where
  "is_word_char c =
     (c \<in> set ''abcdefghijklmnopqrstuvwxyzABCDEFGHIJKLMNOPQRSTUVWXYZ0123456789_'')"

definition is_space_char :: "char \<Rightarrow> bool" where
  "is_space_char c = ((of_char c :: nat) \<in> set [9, 10, 11, 12, 13, 32, 160])"

definition lower_char :: "char \<Rightarrow> char" where
  "lower_char c =
     (let n = (of_char c :: nat)
      in if (65 \<le> n \<and> n \<le> 90) \<or> (192 \<le> n \<and> n \<le> 222 \<and> n \<noteq> 215)
         then char_of (n + 32) else c)"

definition toLowerCase :: "string \<Rightarrow> string" where
  "toLowerCase s = map lower_char s"

text \<open>
  \<open>s.split(/C+/)\<close> for a character class \<open>C\<close>: the pieces between the maximal runs of
  separator characters. A run at the start or at the end of the string leaves an empty
  piece there, and the empty string splits into one empty piece. \<open>cur\<close> is the piece
  being read.
\<close>

fun split_re :: "(char \<Rightarrow> bool) \<Rightarrow> string \<Rightarrow> string \<Rightarrow> string list" where
  "split_re sep cur [] = [cur]"
| "split_re sep cur [c] = (if sep c then [cur, []] else [cur @ [c]])"
| "split_re sep cur (c # d # cs) =
     (if sep c
      then (if sep d then split_re sep cur (d # cs) else cur # split_re sep [] (d # cs))
      else split_re sep (cur @ [c]) (d # cs))"

section \<open>Sentiment analyzer\<close>

subsection \<open>analyzeSentiment\<close>

definition positiveWords :: "string list" where
  "positiveWords =
     [''love'', ''great'', ''awesome'', ''amazing'', ''excellent'', ''wonderful'',
      ''fantastic'', ''good'', ''nice'', ''happy'', ''excited'', ''thrilled'', ''perfect'',
      ''brilliant'']"

definition negativeWords :: "string list" where
  "negativeWords =
     [''hate'', ''bad'', ''terrible'', ''awful'', ''horrible'', ''sad'', ''angry'',
      ''disappointed'', ''frustrated'', ''annoyed'', ''worried'', ''concerned'']"

text \<open>The \<open>forEach\<close> over the words, with the two counters as the state.\<close>

fun count_words :: "string list \<Rightarrow> nat \<times> nat \<Rightarrow> nat \<times> nat" where
  "count_words [] (positiveCount, negativeCount) = (positiveCount, negativeCount)"
| "count_words (word # ws) (positiveCount, negativeCount) =
     count_words ws
       (if word \<in> set positiveWords then positiveCount + 1 else positiveCount,
        if word \<in> set negativeWords then negativeCount + 1 else negativeCount)"

definition sentiment_words :: "string \<Rightarrow> string list" where
  "sentiment_words text = split_re (\<lambda>c. \<not> is_word_char c) [] (toLowerCase text)"

definition analyzeSentiment :: "string \<Rightarrow> string" where
  "analyzeSentiment text =
     (if text = [] then ''neutral''
      else (case count_words (sentiment_words text) (0, 0) of
              (positiveCount, negativeCount) \<Rightarrow>
                if positiveCount > negativeCount then ''positive''
                else if negativeCount > positiveCount then ''negative''
                else ''neutral''))"

text \<open>
  The two counts of the specification: how many of the text's lowercased tokens (the
  pieces between runs of non-word characters) stand in each lexicon.
\<close>

definition positive_hits :: "string \<Rightarrow> nat" where
  "positive_hits text = length (filter (\<lambda>w. w \<in> set positiveWords) (sentiment_words text))"

definition negative_hits :: "string \<Rightarrow> nat" where
  "negative_hits text = length (filter (\<lambda>w. w \<in> set negativeWords) (sentiment_words text))"

lemma count_words_filter:
  "count_words ws (p, n) =
     (p + length (filter (\<lambda>w. w \<in> set positiveWords) ws),
      n + length (filter (\<lambda>w. w \<in> set negativeWords) ws))"
  by (induction ws arbitrary: p n) simp_all

lemma sentiment_words_empty: "sentiment_words [] = [[]]"
  by (simp add: sentiment_words_def toLowerCase_def)

lemma empty_not_in_lexicons: "[] \<notin> set positiveWords" "[] \<notin> set negativeWords"
  by (simp_all add: positiveWords_def negativeWords_def)

lemma hits_empty: "positive_hits [] = 0" "negative_hits [] = 0"
  by (simp_all add: positive_hits_def negative_hits_def sentiment_words_empty
      empty_not_in_lexicons)

lemma analyzeSentiment_counts:
  "analyzeSentiment text =
     (if positive_hits text > negative_hits text then ''positive''
      else if negative_hits text > positive_hits text then ''negative''
      else ''neutral'')"
proof (cases "text = []")
  case True
  then show ?thesis by (simp add: analyzeSentiment_def hits_empty)
next
  case False
  then show ?thesis
    by (simp add: analyzeSentiment_def count_words_filter positive_hits_def
        negative_hits_def)
qed

text \<open>
  C6. For every text, \<open>analyzeSentiment\<close> answers \<open>positive\<close> exactly when more tokens of
  the lowercased text, split on non-word characters, stand in the positive lexicon than in
  the negative one, \<open>negative\<close> exactly when more stand in the negative one, and
  \<open>neutral\<close> exactly when the two counts are equal (both zero included).
\<close>

theorem analyzeSentiment_strict_majority:
  "(analyzeSentiment text = ''positive'' \<longleftrightarrow> negative_hits text < positive_hits text) \<and>
   (analyzeSentiment text = ''negative'' \<longleftrightarrow> positive_hits text < negative_hits text) \<and>
   (analyzeSentiment text = ''neutral'' \<longleftrightarrow> positive_hits text = negative_hits text)"
  by (simp add: analyzeSentiment_counts)

theorem analyzeSentiment_strict_majority_witness:
  "analyzeSentiment ''I LOVE this, great video! Not bad.'' = ''positive'' \<and>
   positive_hits ''I LOVE this, great video! Not bad.'' = 2 \<and>
   negative_hits ''I LOVE this, great video! Not bad.'' = 1"
proof -
  have p: "positive_hits ''I LOVE this, great video! Not bad.'' = 2" by code_simp
  have n: "negative_hits ''I LOVE this, great video! Not bad.'' = 1" by code_simp
  show ?thesis
    using analyzeSentiment_strict_majority [of "''I LOVE this, great video! Not bad.''"] p n
    by simp
qed

section \<open>Comment-box scanner\<close>

text \<open>The exceptions of the script and of the host interfaces it calls.\<close>

datatype error = SyntaxError | TypeError | ReferenceError | Error string

text \<open>
  The flags the constructor reads from the host name, once.
\<close>

record site =
  isYouTube :: bool
  isLinkedIn :: bool

text \<open>
  What the scanner reads of an element: whether \<open>offsetParent\<close> is an element, the
  size of \<open>getBoundingClientRect()\<close>, and whether the attribute
  \<open>data-onetap-processed\<close> is present. \<open>rendered\<close> is what the script does not read:
  whether the element is attached to the document and has a layout box. An element
  without a layout box has no \<open>offsetParent\<close>, but neither has a rendered element with
  \<open>position: fixed\<close>, nor the body.
\<close>

record element =
  rendered :: bool
  offsetParent :: bool
  rect_width :: real
  rect_height :: real
  processed :: bool

text \<open>
  The document. Elements are handles; the store \<open>element_of\<close> holds what is mutable, so
  that one element reached through two selectors is one entry. \<open>nodes\<close> lists the
  elements of the document in document order, \<open>matches\<close> is the host's selector engine,
  and \<open>rejects\<close> marks the selectors on which it raises. \<open>injections\<close> records the calls
  of \<open>injectUI\<close>, oldest first.
\<close>

record page =
  nodes :: "nat list"
  matches :: "nat \<Rightarrow> string \<Rightarrow> bool"
  rejects :: "string \<Rightarrow> bool"
  element_of :: "nat \<Rightarrow> element"
  injections :: "nat list"

definition marker_selector :: string where
  "marker_selector = ''[data-onetap-processed]''"

definition querySelectorAll :: "page \<Rightarrow> string \<Rightarrow> error + nat list" where
  "querySelectorAll p selector =
     (if selector = marker_selector
      then Inr (filter (\<lambda>el. processed (element_of p el)) (nodes p))
      else if rejects p selector then Inl SyntaxError
      else Inr (filter (\<lambda>el. matches p el selector) (nodes p)))"

definition isValidCommentBox :: "page \<Rightarrow> nat \<Rightarrow> bool" where
  "isValidCommentBox p el =
     (if \<not> offsetParent (element_of p el) then False
      else rect_width (element_of p el) > 0 \<and> rect_height (element_of p el) > 0)"

definition youtube_selectors :: "string list" where
  \<open>youtube_selectors =
     [''#placeholder-area textarea'',
      ''div[id="contenteditable-root"]'',
      ''#reply-button-end textarea'',
      ''ytd-comment-replies-renderer textarea'']\<close>

definition linkedin_selectors :: "string list" where
  \<open>linkedin_selectors =
     [''.comments-comment-box .ql-editor'',
      ''.comments-comment-texteditor .ql-editor'',
      ''.comments-reply-box .ql-editor'',
      ''div[data-placeholder*="comment"]'']\<close>

definition selectors :: "site \<Rightarrow> string list" where
  "selectors s =
     (if isYouTube s then youtube_selectors
      else if isLinkedIn s then linkedin_selectors
      else [])"

text \<open>
  \<open>findCommentBoxes\<close>: one \<open>try\<close> per selector around the query and the pushes; a
  selector that raises contributes nothing and the loop goes on.
\<close>

definition findCommentBoxes :: "site \<Rightarrow> page \<Rightarrow> nat list" where
  "findCommentBoxes s p =
     foldl (\<lambda>boxes selector.
              case querySelectorAll p selector of
                Inl e \<Rightarrow> boxes
              | Inr elements \<Rightarrow> boxes @ filter (isValidCommentBox p) elements)
       [] (selectors s)"

text \<open>
  \<open>injectUI\<close> is one \<open>try\<close>/\<open>catch\<close>: it never raises, and it neither reads nor writes
  the marker or the box's geometry. The model records the call.
\<close>

definition injectUI :: "nat \<Rightarrow> page \<Rightarrow> page" where
  "injectUI box p = p\<lparr>injections := injections p @ [box]\<rparr>"

definition setProcessed :: "nat \<Rightarrow> page \<Rightarrow> page" where
  "setProcessed box p =
     p\<lparr>element_of := (element_of p)(box := (element_of p box)\<lparr>processed := True\<rparr>)\<rparr>"

definition removeProcessed :: "nat \<Rightarrow> page \<Rightarrow> page" where
  "removeProcessed el p =
     p\<lparr>element_of := (element_of p)(el := (element_of p el)\<lparr>processed := False\<rparr>)\<rparr>"

text \<open>The \<open>forEach\<close> of \<open>scanForCommentBoxes\<close> over the boxes found.\<close>

fun scan_boxes :: "nat list \<Rightarrow> page \<Rightarrow> page" where
  "scan_boxes [] p = p"
| "scan_boxes (box # boxes) p =
     scan_boxes boxes
       (if \<not> processed (element_of p box) then setProcessed box (injectUI box p) else p)"

definition scanForCommentBoxes :: "site \<Rightarrow> page \<Rightarrow> page" where
  "scanForCommentBoxes s p = scan_boxes (findCommentBoxes s p) p"

text \<open>
  \<open>scanForCommentBoxes\<close> returns nothing; what a scan yields is the sequence of boxes it
  hands to \<open>injectUI\<close>, read off the record of calls.
\<close>

definition injected_by :: "nat list \<Rightarrow> page \<Rightarrow> nat list" where
  "injected_by boxes p = drop (length (injections p)) (injections (scan_boxes boxes p))"

definition scan_result :: "site \<Rightarrow> page \<Rightarrow> nat list" where
  "scan_result s p = injected_by (findCommentBoxes s p) p"

text \<open>A list without its repetitions, each element at its first occurrence.\<close>

definition keep_first :: "'a list \<Rightarrow> 'a list" where
  "keep_first xs = rev (remdups (rev xs))"

text \<open>
  What \<open>findCommentBoxes\<close> returns, said without the loop: for each selector of the
  platform that the engine accepts, in order, the elements of the document that match it
  and pass \<open>isValidCommentBox\<close>, that is, have an \<open>offsetParent\<close> and positive width and
  height.
\<close>

definition visible_matches :: "site \<Rightarrow> page \<Rightarrow> nat list" where
  "visible_matches s p =
     concat (map (\<lambda>selector.
        if rejects p selector then []
        else filter (\<lambda>el. matches p el selector \<and> offsetParent (element_of p el) \<and>
               0 < rect_width (element_of p el) \<and> 0 < rect_height (element_of p el))
               (nodes p))
       (selectors s))"

text \<open>
  What the specification says a scan returns: the union over the platform's selectors, in
  order and without repetitions, of the matches that are visible (attached to the render
  tree, with non-zero width and height) and do not carry the processed marker.
\<close>

definition specified_scan :: "site \<Rightarrow> page \<Rightarrow> nat list" where
  "specified_scan s p =
     keep_first
       (filter (\<lambda>el. \<not> processed (element_of p el))
          (concat (map (\<lambda>selector.
             if rejects p selector then []
             else filter (\<lambda>el. matches p el selector \<and> rendered (element_of p el) \<and>
                    rect_width (element_of p el) \<noteq> 0 \<and> rect_height (element_of p el) \<noteq> 0)
                    (nodes p))
            (selectors s))))"

subsection \<open>Navigation\<close>

datatype task = Rescan

text \<open>
  The state of the URL poll: the last URL seen, the document, and the calls of
  \<open>setTimeout\<close> not yet run (delay in milliseconds and callback), in the order made.
\<close>

record monitor =
  lastUrl :: string
  doc :: page
  timers :: "(nat \<times> task) list"

definition clear_markers :: "page \<Rightarrow> page" where
  "clear_markers p =
     (case querySelectorAll p marker_selector of
        Inl e \<Rightarrow> p
      | Inr elements \<Rightarrow> foldl (\<lambda>q el. removeProcessed el q) p elements)"

text \<open>One run of the interval callback of \<open>startUrlChangeListener\<close>, context-aware script.\<close>

definition url_tick :: "string \<Rightarrow> monitor \<Rightarrow> monitor" where
  "url_tick href m =
     (if href \<noteq> lastUrl m
      then m\<lparr>lastUrl := href, doc := clear_markers (doc m),
             timers := timers m @ [(2000, Rescan)]\<rparr>
      else m)"

text \<open>The same callback in \<open>content.js\<close>: it rescans at once and leaves the markers.\<close>

definition url_tick_simple :: "site \<Rightarrow> string \<Rightarrow> monitor \<Rightarrow> monitor" where
  "url_tick_simple s href m =
     (if href \<noteq> lastUrl m
      then m\<lparr>lastUrl := href, doc := scanForCommentBoxes s (doc m)\<rparr>
      else m)"

definition run_task :: "site \<Rightarrow> task \<Rightarrow> monitor \<Rightarrow> monitor" where
  "run_task s t m = (case t of Rescan \<Rightarrow> m\<lparr>doc := scanForCommentBoxes s (doc m)\<rparr>)"

subsection \<open>What a scan acts on\<close>

lemma keep_first_Nil: "keep_first [] = []"
  by (simp add: keep_first_def)

lemma remdups_snoc: "remdups (ys @ [x]) = filter (\<lambda>y. y \<noteq> x) (remdups ys) @ [x]"
  by (induction ys) auto

lemma keep_first_Cons: "keep_first (x # xs) = x # filter (\<lambda>y. y \<noteq> x) (keep_first xs)"
  by (simp add: keep_first_def remdups_snoc rev_filter)

lemma keep_first_filter: "keep_first (filter P xs) = filter P (keep_first xs)"
  by (simp add: keep_first_def rev_filter remdups_filter)

lemma set_keep_first: "set (keep_first xs) = set xs"
  by (simp add: keep_first_def)

lemma distinct_keep_first: "distinct (keep_first xs)"
  by (simp add: keep_first_def)

lemma subseq_keep_first: "subseq (keep_first xs) xs"
  by (induction xs) (auto simp: keep_first_Nil keep_first_Cons intro: subseq_order.order_trans [OF subseq_filter_left] )

lemma processed_setProcessed:
  "processed (element_of (setProcessed box (injectUI box p)) b) = (b = box \<or> processed (element_of p b))"
  by (simp add: setProcessed_def injectUI_def)

lemma injections_setProcessed:
  "injections (setProcessed box (injectUI box p)) = injections p @ [box]"
  by (simp add: setProcessed_def injectUI_def)

lemma scan_boxes_injections:
  "injections (scan_boxes boxes p) =
     injections p @ keep_first (filter (\<lambda>b. \<not> processed (element_of p b)) boxes)"
proof (induction boxes arbitrary: p)
  case Nil
  show ?case by (simp add: keep_first_Nil)
next
  case (Cons box boxes)
  show ?case
  proof (cases "processed (element_of p box)")
    case True
    then show ?thesis by (simp add: Cons.IH)
  next
    case False
    have "filter (\<lambda>b. \<not> processed (element_of (setProcessed box (injectUI box p)) b)) boxes
        = filter (\<lambda>y. y \<noteq> box) (filter (\<lambda>b. \<not> processed (element_of p b)) boxes)"
      by (induction boxes) (simp_all add: processed_setProcessed)
    with False show ?thesis
      by (simp add: Cons.IH injections_setProcessed keep_first_Cons keep_first_filter)
  qed
qed

lemma injected_by_eq:
  "injected_by boxes p = keep_first (filter (\<lambda>b. \<not> processed (element_of p b)) boxes)"
  by (simp add: injected_by_def scan_boxes_injections)

lemma scan_boxes_processed:
  "processed (element_of (scan_boxes boxes p) b) = (processed (element_of p b) \<or> b \<in> set boxes)"
  by (induction boxes arbitrary: p) (auto simp: processed_setProcessed)

lemma scan_boxes_frame:
  "nodes (scan_boxes boxes p) = nodes p"
  "matches (scan_boxes boxes p) = matches p"
  "rejects (scan_boxes boxes p) = rejects p"
  "offsetParent (element_of (scan_boxes boxes p) e) = offsetParent (element_of p e)"
  "rect_width (element_of (scan_boxes boxes p) e) = rect_width (element_of p e)"
  "rect_height (element_of (scan_boxes boxes p) e) = rect_height (element_of p e)"
  by (induction boxes arbitrary: p; simp add: setProcessed_def injectUI_def)+

lemma foldl_append_acc:
  "foldl (\<lambda>acc x. case f x of Inl e \<Rightarrow> acc | Inr ys \<Rightarrow> acc @ g ys) acc xs =
     acc @ concat (map (\<lambda>x. case f x of Inl e \<Rightarrow> [] | Inr ys \<Rightarrow> g ys) xs)"
  by (induction xs arbitrary: acc) (simp_all split: sum.splits)

lemma marker_not_selector: "marker_selector \<notin> set (selectors s)"
  by (simp add: selectors_def youtube_selectors_def linkedin_selectors_def marker_selector_def)

lemma findCommentBoxes_visible_matches: "findCommentBoxes s p = visible_matches s p"
proof -
  have "(case querySelectorAll p selector of Inl e \<Rightarrow> [] | Inr els \<Rightarrow> filter (isValidCommentBox p) els)
      = (if rejects p selector then []
        else filter (\<lambda>el. matches p el selector \<and> offsetParent (element_of p el) \<and>
               0 < rect_width (element_of p el) \<and> 0 < rect_height (element_of p el))
               (nodes p))" if "selector \<in> set (selectors s)" for selector
  proof -
    from that marker_not_selector have "selector \<noteq> marker_selector" by auto
    then show ?thesis
      by (auto simp: querySelectorAll_def isValidCommentBox_def intro: filter_cong)
  qed
  then show ?thesis
    unfolding findCommentBoxes_def visible_matches_def foldl_append_acc
    by (simp cong: map_cong)
qed

lemma visible_matches_scan_boxes: "visible_matches s (scan_boxes boxes p) = visible_matches s p"
  by (simp add: visible_matches_def scan_boxes_frame cong: if_cong)

lemma visible_matches_nodes: "set (visible_matches s p) \<subseteq> set (nodes p)"
  by (auto simp: visible_matches_def split: if_splits)

lemma scan_result_eq:
  "scan_result s p =
     keep_first (filter (\<lambda>b. \<not> processed (element_of p b)) (visible_matches s p))"
  by (simp add: scan_result_def injected_by_eq findCommentBoxes_visible_matches)

lemma findCommentBoxes_again:
  "findCommentBoxes s (scanForCommentBoxes s p) = findCommentBoxes s p"
  by (simp add: findCommentBoxes_visible_matches scanForCommentBoxes_def
      visible_matches_scan_boxes)

text \<open>
  C3, amended. For every document state, \<open>findCommentBoxes\<close> returns, selector by
  selector in order, the matches that have an \<open>offsetParent\<close> and positive width and
  height, repeated when several selectors match and whether marked or not, and it returns
  the same list on a second call. \<open>scanForCommentBoxes\<close> returns nothing: it hands to
  \<open>injectUI\<close> the unmarked boxes of that list, each once at its first occurrence, and
  leaves every box of the list marked, so that a second \<open>scanForCommentBoxes\<close> with no
  change of the document in between hands over nothing.
\<close>

theorem scan_result_union:
  "findCommentBoxes s p = visible_matches s p \<and>
   findCommentBoxes s (scanForCommentBoxes s p) = findCommentBoxes s p \<and>
   scan_result s p =
     keep_first (filter (\<lambda>b. \<not> processed (element_of p b)) (findCommentBoxes s p)) \<and>
   distinct (scan_result s p) \<and>
   set (scan_result s p) =
     {b \<in> set (findCommentBoxes s p). \<not> processed (element_of p b)} \<and>
   subseq (scan_result s p) (findCommentBoxes s p) \<and>
   (\<forall>b \<in> set (findCommentBoxes s p). processed (element_of (scanForCommentBoxes s p) b)) \<and>
   scan_result s (scanForCommentBoxes s p) = []"
proof -
  have f: "findCommentBoxes s p = visible_matches s p"
    by (rule findCommentBoxes_visible_matches)
  have a: "scan_result s p =
     keep_first (filter (\<lambda>b. \<not> processed (element_of p b)) (findCommentBoxes s p))"
    by (simp add: scan_result_eq f)
  have b: "subseq (scan_result s p) (findCommentBoxes s p)"
    unfolding a
    by (rule subseq_order.order_trans [OF subseq_keep_first subseq_filter_left])
  have c: "scan_result s (scanForCommentBoxes s p) = []"
    by (simp add: scan_result_def injected_by_eq findCommentBoxes_visible_matches
        scanForCommentBoxes_def visible_matches_scan_boxes scan_boxes_processed keep_first_Nil)
  have d: "\<forall>b \<in> set (findCommentBoxes s p). processed (element_of (scanForCommentBoxes s p) b)"
    by (simp add: scanForCommentBoxes_def scan_boxes_processed)
  show ?thesis using f a b c d findCommentBoxes_again [of s p]
    by (auto simp: distinct_keep_first set_keep_first)
qed

subsection \<open>Two small documents\<close>

definition youtube :: site where
  "youtube = \<lparr>isYouTube = True, isLinkedIn = False\<rparr>"

definition linkedin :: site where
  "linkedin = \<lparr>isYouTube = False, isLinkedIn = True\<rparr>"

definition shown :: element where
  "shown =
     \<lparr>rendered = True, offsetParent = True, rect_width = 300, rect_height = 40,
      processed = False\<rparr>"

text \<open>A comment box with \<open>position: fixed\<close>: rendered at 300 by 40, no \<open>offsetParent\<close>.\<close>

definition fixed_page :: page where
  "fixed_page =
     \<lparr>nodes = [0],
      matches = (\<lambda>el selector. el = 0 \<and> selector = ''#placeholder-area textarea''),
      rejects = (\<lambda>selector. False),
      element_of = (\<lambda>el. shown\<lparr>offsetParent := False\<rparr>),
      injections = []\<rparr>"

definition linkedin_page :: page where
  \<open>linkedin_page =
     \<lparr>nodes = [0, 1, 2],
      matches = (\<lambda>el selector.
         (el, selector) \<in> set [(1, ''.comments-comment-box .ql-editor''),
                                (1, ''div[data-placeholder*="comment"]''),
                                (2, ''.comments-reply-box .ql-editor'')]),
      rejects = (\<lambda>selector. False),
      element_of = (\<lambda>el. shown),
      injections = []\<rparr>\<close>

definition youtube_page :: page where
  "youtube_page =
     \<lparr>nodes = [0],
      matches = (\<lambda>el selector. el = 0 \<and> selector = ''#placeholder-area textarea''),
      rejects = (\<lambda>selector. False),
      element_of = (\<lambda>el. shown\<lparr>processed := True\<rparr>),
      injections = [0]\<rparr>"

definition watching :: monitor where
  "watching = \<lparr>lastUrl = ''/watch?v=a'', doc = youtube_page, timers = []\<rparr>"

lemma linkedin_page_matches: "visible_matches linkedin linkedin_page = [1, 2, 1]"
  by (simp add: visible_matches_def selectors_def linkedin_def linkedin_selectors_def
      linkedin_page_def shown_def)

text \<open>
  C3, as stated, fails on three counts. An element that two selectors match is returned
  twice; a second \<open>findCommentBoxes\<close> after a scan returns the same boxes, marked as they
  now are, and not the empty list; and a box with \<open>position: fixed\<close>, attached and 300
  by 40, is not returned at all.
\<close>

theorem findCommentBoxes_repeats:
  "findCommentBoxes linkedin linkedin_page = [1, 2, 1] \<and>
   specified_scan linkedin linkedin_page = [1, 2] \<and>
   findCommentBoxes linkedin (scanForCommentBoxes linkedin linkedin_page) = [1, 2, 1] \<and>
   processed (element_of (scanForCommentBoxes linkedin linkedin_page) 1) \<and>
   specified_scan youtube fixed_page = [0] \<and>
   findCommentBoxes youtube fixed_page = []"
proof -
  have a: "findCommentBoxes linkedin linkedin_page = [1, 2, 1]"
    by (simp add: findCommentBoxes_visible_matches linkedin_page_matches)
  have b: "specified_scan linkedin linkedin_page = [1, 2]"
    by (simp add: specified_scan_def selectors_def linkedin_def linkedin_selectors_def
        linkedin_page_def shown_def keep_first_def)
  have c: "findCommentBoxes linkedin (scanForCommentBoxes linkedin linkedin_page) = [1, 2, 1]"
    by (simp add: findCommentBoxes_again a)
  have m: "processed (element_of (scanForCommentBoxes linkedin linkedin_page) el) =
      (el = 1 \<or> el = 2)" for el
  proof -
    have "processed (element_of (scanForCommentBoxes linkedin linkedin_page) el) =
        (processed (element_of linkedin_page el) \<or> el \<in> set [1, 2, 1])"
      by (simp only: scanForCommentBoxes_def scan_boxes_processed a)
    then show ?thesis by (auto simp: linkedin_page_def shown_def)
  qed
  have e: "specified_scan youtube fixed_page = [0]"
    by (simp add: specified_scan_def selectors_def youtube_def youtube_selectors_def
        fixed_page_def shown_def keep_first_def)
  have f: "findCommentBoxes youtube fixed_page = []"
    by (simp add: findCommentBoxes_visible_matches visible_matches_def selectors_def
        youtube_def youtube_selectors_def fixed_page_def shown_def)
  from a b c m [of 1] e f show ?thesis by simp
qed

theorem scan_result_union_witness:
  "findCommentBoxes linkedin linkedin_page = [1, 2, 1] \<and>
   scan_result linkedin linkedin_page = [1, 2] \<and>
   findCommentBoxes linkedin (scanForCommentBoxes linkedin linkedin_page) = [1, 2, 1] \<and>
   scan_result linkedin (scanForCommentBoxes linkedin linkedin_page) = []"
proof -
  have "filter (\<lambda>b. \<not> processed (element_of linkedin_page b)) [1, 2, 1] = [1, 2, 1]"
    by (simp add: linkedin_page_def shown_def)
  then show ?thesis
    using scan_result_union [of linkedin linkedin_page]
    by (simp add: linkedin_page_matches keep_first_def)
qed

lemma count_list_distinct: "distinct xs \<Longrightarrow> count_list xs x = (if x \<in> set xs then 1 else 0)"
  by (induction xs) auto

text \<open>
  C10. Within one scan cycle an element is handed to \<open>injectUI\<close> exactly once when it is
  among the boxes found and does not carry the marker, and never otherwise, however often
  the boxes found repeat it: the loop sets the marker in the iteration that injects, so
  the later occurrences of the element are skipped.
\<close>

theorem one_injection_per_element:
  "count_list (injected_by boxes p) b =
     (if b \<in> set boxes \<and> \<not> processed (element_of p b) then 1 else 0) \<and>
   count_list (scan_result s p) b \<le> 1 \<and>
   processed (element_of (scan_boxes (b # boxes) p) b) \<and>
   injected_by (b # boxes) p =
     (if processed (element_of p b) then injected_by boxes p
      else b # injected_by (filter (\<lambda>y. y \<noteq> b) boxes) p)"
proof -
  have a: "count_list (injected_by boxes p) b =
     (if b \<in> set boxes \<and> \<not> processed (element_of p b) then 1 else 0)" for boxes
    by (simp add: injected_by_eq count_list_distinct distinct_keep_first set_keep_first)
  have b: "count_list (scan_result s p) b \<le> 1"
    by (simp add: scan_result_def a)
  have c: "processed (element_of (scan_boxes (b # boxes) p) b)"
    by (simp add: scan_boxes_processed del: scan_boxes.simps)
  have d: "injected_by (b # boxes) p =
     (if processed (element_of p b) then injected_by boxes p
      else b # injected_by (filter (\<lambda>y. y \<noteq> b) boxes) p)"
    by (auto simp add: injected_by_eq keep_first_Cons keep_first_filter intro!: filter_cong)
  show ?thesis using a b c d by blast
qed

theorem one_injection_per_element_witness:
  "count_list (injected_by [1, 2, 1] linkedin_page) 1 = 1 \<and>
   injected_by [1, 2, 1] linkedin_page = [1, 2]"
proof -
  have u: "\<not> processed (element_of linkedin_page b)" for b
    by (simp add: linkedin_page_def shown_def)
  have "injected_by [] linkedin_page = []"
    by (simp add: injected_by_def)
  then show ?thesis
    using one_injection_per_element [of "[2, 1]" linkedin_page 1]
      one_injection_per_element [of "[]" linkedin_page 2]
      one_injection_per_element [of "[1, 2, 1]" linkedin_page 1]
      u
    by simp
qed

lemma removeProcessed_fold:
  "element_of (foldl (\<lambda>q el. removeProcessed el q) p els) el =
     (if el \<in> set els then (element_of p el)\<lparr>processed := False\<rparr> else element_of p el)"
  "nodes (foldl (\<lambda>q el. removeProcessed el q) p els) = nodes p"
  "matches (foldl (\<lambda>q el. removeProcessed el q) p els) = matches p"
  "rejects (foldl (\<lambda>q el. removeProcessed el q) p els) = rejects p"
  by (induction els arbitrary: p; simp add: removeProcessed_def)+

lemma clear_markers_frame:
  "nodes (clear_markers p) = nodes p"
  "matches (clear_markers p) = matches p"
  "rejects (clear_markers p) = rejects p"
  "offsetParent (element_of (clear_markers p) el) = offsetParent (element_of p el)"
  "rect_width (element_of (clear_markers p) el) = rect_width (element_of p el)"
  "rect_height (element_of (clear_markers p) el) = rect_height (element_of p el)"
  by (simp_all add: clear_markers_def querySelectorAll_def removeProcessed_fold)

lemma clear_markers_processed:
  "processed (element_of (clear_markers p) el) =
     (processed (element_of p el) \<and> el \<notin> set (nodes p))"
  by (auto simp: clear_markers_def querySelectorAll_def removeProcessed_fold)

lemma visible_matches_clear_markers: "visible_matches s (clear_markers p) = visible_matches s p"
  by (simp add: visible_matches_def clear_markers_frame cong: if_cong)

text \<open>
  C4, as stated, fails on \<open>content.js\<close>: there the handler of a URL change leaves the
  marker on a processed box and schedules nothing.
\<close>

theorem url_tick_simple_keeps_markers:
  "''/watch?v=b'' \<noteq> lastUrl watching \<and>
   processed (element_of (doc watching) 0) \<and>
   processed (element_of (doc (url_tick_simple youtube ''/watch?v=b'' watching)) 0) \<and>
   timers (url_tick_simple youtube ''/watch?v=b'' watching) = []"
  by (simp add: url_tick_simple_def watching_def youtube_page_def shown_def
      scanForCommentBoxes_def scan_boxes_processed)

text \<open>
  C4, amended. In the context-aware script, at every detected URL change the handler
  records the new URL, clears the processed marker from every element of the document
  and schedules one rescan 2000 ms later, which scans the document as the handler left
  it; such a scan takes up every visible match again. The handler of \<open>content.js\<close>
  rescans at once instead, clears no marker and schedules nothing.
\<close>

theorem url_tick_clears_markers:
  assumes "href \<noteq> lastUrl m"
  shows "lastUrl (url_tick href m) = href \<and>
    (\<forall>el \<in> set (nodes (doc (url_tick href m))).
        \<not> processed (element_of (doc (url_tick href m)) el)) \<and>
    timers (url_tick href m) = timers m @ [(2000, Rescan)] \<and>
    scan_result s (doc (url_tick href m)) = keep_first (visible_matches s (doc m)) \<and>
    doc (run_task s Rescan (url_tick href m)) =
      scanForCommentBoxes s (clear_markers (doc m)) \<and>
    doc (url_tick_simple s href m) = scanForCommentBoxes s (doc m) \<and>
    timers (url_tick_simple s href m) = timers m"
proof -
  have d: "doc (url_tick href m) = clear_markers (doc m)"
    using assms by (simp add: url_tick_def)
  have n: "nodes (clear_markers (doc m)) = nodes (doc m)"
    by (simp add: clear_markers_frame)
  have f: "filter (\<lambda>b. \<not> processed (element_of (clear_markers (doc m)) b)) (visible_matches s (doc m))
      = visible_matches s (doc m)"
    using visible_matches_nodes [of s "doc m"]
    by (auto simp: clear_markers_processed filter_id_conv)
  have r: "scan_result s (clear_markers (doc m)) = keep_first (visible_matches s (doc m))"
    by (simp add: scan_result_eq visible_matches_clear_markers f)
  show ?thesis
    using assms
    by (simp add: d n r clear_markers_processed run_task_def)
      (simp add: url_tick_def url_tick_simple_def)
qed

theorem url_tick_clears_markers_witness:
  "''/watch?v=b'' \<noteq> lastUrl watching \<and>
   \<not> processed (element_of (doc (url_tick ''/watch?v=b'' watching)) 0) \<and>
   timers (url_tick ''/watch?v=b'' watching) = [(2000, Rescan)] \<and>
   scan_result youtube (doc (url_tick ''/watch?v=b'' watching)) = [0]"
proof -
  have h: "''/watch?v=b'' \<noteq> lastUrl watching"
    by (simp add: watching_def)
  have v: "visible_matches youtube (doc watching) = [0]"
    by (simp add: visible_matches_def selectors_def youtube_def youtube_selectors_def
      watching_def youtube_page_def shown_def)
  have n: "0 \<in> set (nodes (doc (url_tick ''/watch?v=b'' watching)))"
    using h by (simp add: url_tick_def clear_markers_frame watching_def youtube_page_def)
  show ?thesis
    using url_tick_clears_markers [OF h, of youtube] v n h
    by (simp add: keep_first_def watching_def)
qed

section \<open>Suggestion surface\<close>

text \<open>
  The state the panel code shares: the two fields of the instance, the option panels that
  are attached to a parent node (oldest first), the number of panels
  \<open>createOptionsPanel\<close> has built so far, which is the handle of the next one, and the
  calls of \<open>showReplyOptions\<close> that wait at their \<open>await\<close>, oldest first. A waiting call is
  kept with what it reads when it goes on: whether \<open>button.parentElement\<close> is an element
  then, and its comment box.
\<close>

record ui =
  activeUI :: "nat option"
  currentTarget :: "nat option"
  panels :: "nat list"
  created :: nat
  suspended :: "(bool \<times> nat) list"

definition initial_ui :: ui where
  "initial_ui =
     \<lparr>activeUI = None, currentTarget = None, panels = [], created = 0, suspended = []\<rparr>"

definition hideActiveUI :: "ui \<Rightarrow> ui" where
  "hideActiveUI u =
     (case activeUI u of
        None \<Rightarrow> u
      | Some panel \<Rightarrow>
          u\<lparr>panels := removeAll panel (panels u), activeUI := None, currentTarget := None\<rparr>)"

text \<open>
  \<open>showReplyOptions\<close> of the context-aware script, in its two halves. The first runs
  where the function is called: \<open>hideActiveUI()\<close>, then the call of
  \<open>extractComprehensiveContext\<close>, at whose \<open>await\<close> the function is suspended. The second
  runs as a microtask: \<open>createOptionsPanel\<close>, \<open>appendChild\<close> on the button's parent, which
  raises when there is none, and the assignments to \<open>activeUI\<close> and \<open>currentTarget\<close>.
\<close>

definition showReplyOptions_begin :: "bool \<Rightarrow> nat \<Rightarrow> ui \<Rightarrow> ui" where
  "showReplyOptions_begin has_parent commentBox u =
     (let u1 = hideActiveUI u
      in u1\<lparr>suspended := suspended u1 @ [(has_parent, commentBox)]\<rparr>)"

definition showReplyOptions_resume :: "bool \<times> nat \<Rightarrow> ui \<Rightarrow> error option \<times> ui" where
  "showReplyOptions_resume call u =
     (case call of
        (has_parent, commentBox) \<Rightarrow>
          (let panel = created u;
               u2 = u\<lparr>created := Suc panel\<rparr>
           in if \<not> has_parent then (Some TypeError, u2)
              else (None, u2\<lparr>panels := panels u2 @ [panel], activeUI := Some panel,
                               currentTarget := Some commentBox\<rparr>)))"

text \<open>
  The microtasks that follow the script of a task: the suspended calls go on one after
  the other, in the order in which they were suspended.
\<close>

definition run_microtasks :: "ui \<Rightarrow> ui" where
  "run_microtasks u =
     foldl (\<lambda>v call. snd (showReplyOptions_resume call v)) (u\<lparr>suspended := []\<rparr>)
       (suspended u)"

text \<open>
  \<open>showReplyOptions\<close> of \<open>content.js\<close> has no \<open>await\<close> between the two halves: its
  \<open>extractPostContent\<close> is an ordinary call.
\<close>

definition showReplyOptions_simple :: "bool \<Rightarrow> nat \<Rightarrow> ui \<Rightarrow> error option \<times> ui" where
  "showReplyOptions_simple has_parent commentBox u =
     showReplyOptions_resume (has_parent, commentBox) (hideActiveUI u)"

definition handleClickOutside :: "bool \<Rightarrow> ui \<Rightarrow> ui" where
  "handleClickOutside target_inside u =
     (if activeUI u \<noteq> None \<and> \<not> target_inside then hideActiveUI u else u)"

definition cleanup :: "ui \<Rightarrow> ui" where
  "cleanup u = hideActiveUI u"

text \<open>
  What can happen to the panel state: a click on a floating button, on the close button or
  on a Use button of the open panel (both end in \<open>hideActiveUI\<close>), a click anywhere in
  the document, the unload of the page, and the host page detaching a panel together with
  the subtree that holds it. \<open>fire\<close> is what the listeners of one event do before they
  return.
\<close>

datatype event =
  ClickButton bool nat
| ClickClose
| ClickUse
| ClickDocument bool
| Unload
| HostDetaches nat

fun fire :: "event \<Rightarrow> ui \<Rightarrow> ui" where
  "fire (ClickButton has_parent commentBox) u = showReplyOptions_begin has_parent commentBox u"
| "fire ClickClose u = hideActiveUI u"
| "fire ClickUse u = hideActiveUI u"
| "fire (ClickDocument target_inside) u = handleClickOutside target_inside u"
| "fire Unload u = cleanup u"
| "fire (HostDetaches panel) u = u\<lparr>panels := removeAll panel (panels u)\<rparr>"

text \<open>
  A task of the event loop: the events dispatched without a return to the loop between
  them, then the microtasks. A click of the user is a task of one event; a script that
  calls \<open>click()\<close> on two floating buttons in a row, or twice on one, makes a task of two.
\<close>

definition task :: "event list \<Rightarrow> ui \<Rightarrow> ui" where
  "task events u = run_microtasks (foldl (\<lambda>v e. fire e v) u events)"

inductive reachable :: "ui \<Rightarrow> bool" where
  start: "reachable initial_ui"
| step: "reachable u \<Longrightarrow> reachable (task events u)"

text \<open>The states reached when every task holds one event, as with the clicks of a user.\<close>

inductive reachable_apart :: "ui \<Rightarrow> bool" where
  start_apart: "reachable_apart initial_ui"
| step_apart: "reachable_apart u \<Longrightarrow> reachable_apart (task [e] u)"

definition one_surface :: "ui \<Rightarrow> bool" where
  "one_surface u =
     (set (panels u) \<subseteq> set_option (activeUI u) \<and> distinct (panels u) \<and>
      (\<forall>panel \<in> set_option (activeUI u). panel < created u) \<and> suspended u = [])"

lemma one_surface_hide: "one_surface u \<Longrightarrow> one_surface (hideActiveUI u)"
  by (auto simp: one_surface_def hideActiveUI_def distinct_removeAll split: option.splits)

lemma removeAll_only: "set xs \<subseteq> {a} \<Longrightarrow> removeAll a xs = []"
  by (induction xs) auto

lemma panels_hide: "one_surface u \<Longrightarrow> panels (hideActiveUI u) = []"
  by (cases "activeUI u") (auto simp: one_surface_def hideActiveUI_def removeAll_only)

lemma created_hide: "created (hideActiveUI u) = created u"
  by (simp add: hideActiveUI_def split: option.splits)

lemma one_surface_resume:
  "one_surface u \<Longrightarrow> panels u = [] \<Longrightarrow> one_surface (snd (showReplyOptions_resume call u))"
  by (cases call) (auto simp: showReplyOptions_resume_def Let_def one_surface_def)

lemma task_ClickButton:
  "suspended u = [] \<Longrightarrow>
   task [ClickButton has_parent commentBox] u =
     snd (showReplyOptions_simple has_parent commentBox u)"
proof -
  assume s: "suspended u = []"
  then have h: "suspended (hideActiveUI u) = []"
    by (simp add: hideActiveUI_def split: option.splits)
  have e: "(hideActiveUI u)\<lparr>suspended := []\<rparr> = hideActiveUI u"
    using h by simp
  show ?thesis
    by (simp add: task_def run_microtasks_def showReplyOptions_begin_def Let_def
        showReplyOptions_simple_def h e)
qed

lemma one_surface_simple:
  "one_surface u \<Longrightarrow> one_surface (snd (showReplyOptions_simple has_parent commentBox u))"
  unfolding showReplyOptions_simple_def
  by (intro one_surface_resume one_surface_hide panels_hide)

lemma one_surface_task: "one_surface u \<Longrightarrow> one_surface (task [e] u)"
proof (cases e)
  case (ClickButton has_parent commentBox)
  assume a: "one_surface u"
  then have "suspended u = []" by (simp add: one_surface_def)
  with a ClickButton show ?thesis
    by (simp add: task_ClickButton one_surface_simple)
next
  case (HostDetaches panel)
  assume "one_surface u"
  with HostDetaches show ?thesis
    by (auto simp: one_surface_def task_def run_microtasks_def distinct_removeAll)
next
  case ClickClose
  assume a: "one_surface u"
  from one_surface_hide [OF a] ClickClose show ?thesis
    by (simp add: task_def run_microtasks_def one_surface_def)
next
  case ClickUse
  assume a: "one_surface u"
  from one_surface_hide [OF a] ClickUse show ?thesis
    by (simp add: task_def run_microtasks_def one_surface_def)
next
  case (ClickDocument target_inside)
  assume a: "one_surface u"
  from one_surface_hide [OF a] a ClickDocument show ?thesis
    by (simp add: task_def run_microtasks_def one_surface_def handleClickOutside_def)
next
  case Unload
  assume a: "one_surface u"
  from one_surface_hide [OF a] Unload show ?thesis
    by (simp add: task_def run_microtasks_def one_surface_def cleanup_def)
qed

lemma reachable_apart_one_surface: "reachable_apart u \<Longrightarrow> one_surface u"
proof (induction rule: reachable_apart.induct)
  case start_apart
  show ?case by (simp add: one_surface_def initial_ui_def)
next
  case (step_apart u e)
  then show ?case by (simp add: one_surface_task)
qed

lemma one_surface_length: "one_surface u \<Longrightarrow> length (panels u) \<le> 1"
proof -
  assume a: "one_surface u"
  then have "card (set (panels u)) \<le> card (set_option (activeUI u))"
    by (intro card_mono) (auto simp: one_surface_def)
  also have "\<dots> \<le> 1" by (cases "activeUI u") simp_all
  finally show ?thesis using a by (simp add: one_surface_def distinct_card)
qed

text \<open>
  What holds when the calls of \<open>showReplyOptions\<close> do not overlap, every task being one
  event: at most one panel is attached, and it is the one \<open>activeUI\<close> refers to. The same
  holds of \<open>content.js\<close>, where a call cannot be suspended.
\<close>

lemma single_surface_apart:
  assumes "reachable_apart u"
  shows "length (panels u) \<le> 1 \<and> set (panels u) \<subseteq> set_option (activeUI u) \<and>
    panels (task [ClickButton True commentBox] u) = [created u] \<and>
    activeUI (task [ClickButton True commentBox] u) = Some (created u) \<and>
    panels (snd (showReplyOptions_simple True commentBox u)) = [created u]"
proof -
  have inv: "one_surface u" using assms by (rule reachable_apart_one_surface)
  then have s: "suspended u = []" by (simp add: one_surface_def)
  have hid: "panels (hideActiveUI u) = []" using inv by (rule panels_hide)
  show ?thesis
    using inv hid one_surface_length [OF inv]
    by (simp add: task_ClickButton [OF s] one_surface_def showReplyOptions_simple_def
        showReplyOptions_resume_def Let_def created_hide)
qed

text \<open>
  C7. Two clicks on floating buttons in one task of the context-aware script: both calls
  of \<open>showReplyOptions\<close> run \<open>hideActiveUI\<close> while no panel is open and are suspended,
  then both go on and attach a panel. Two panels are attached, and \<open>activeUI\<close> refers to
  the second only. In \<open>content.js\<close> the second call removes the panel of the first.
\<close>

theorem overlapping_showReplyOptions:
  "task [ClickButton True 3, ClickButton True 7] initial_ui =
     \<lparr>activeUI = Some 1, currentTarget = Some 7, panels = [0, 1], created = 2,
      suspended = []\<rparr> \<and>
   reachable (task [ClickButton True 3, ClickButton True 7] initial_ui) \<and>
   snd (showReplyOptions_simple True 7 (snd (showReplyOptions_simple True 3 initial_ui))) =
     \<lparr>activeUI = Some 1, currentTarget = Some 7, panels = [1], created = 2,
      suspended = []\<rparr>"
proof -
  have a: "task [ClickButton True 3, ClickButton True 7] initial_ui =
     \<lparr>activeUI = Some 1, currentTarget = Some 7, panels = [0, 1], created = 2,
      suspended = []\<rparr>"
    by (simp add: task_def run_microtasks_def showReplyOptions_begin_def
        showReplyOptions_resume_def hideActiveUI_def initial_ui_def Let_def)
  have b: "reachable (task [ClickButton True 3, ClickButton True 7] initial_ui)"
    by (intro reachable.intros)
  have c: "snd (showReplyOptions_simple True 7 (snd (showReplyOptions_simple True 3 initial_ui)))
      = \<lparr>activeUI = Some 1, currentTarget = Some 7, panels = [1], created = 2,
         suspended = []\<rparr>"
    by (simp add: showReplyOptions_simple_def showReplyOptions_resume_def hideActiveUI_def
        initial_ui_def Let_def)
  from a b c show ?thesis by simp
qed

section \<open>Insertion adapter\<close>

text \<open>
  The children of an element, as the two setters leave them: \<open>textContent = s\<close> leaves
  one text node holding \<open>s\<close> (none for the empty string), which the page shows as it is;
  \<open>innerHTML = m\<close> leaves what the HTML parser builds from the markup \<open>m\<close>.
\<close>

datatype content = Text string | Html string

text \<open>
  A comment box. \<open>dom_value\<close>, \<open>selectionStart\<close> and \<open>selectionEnd\<close> are the properties
  \<open>value\<close>, \<open>selectionStart\<close> and \<open>selectionEnd\<close> of a text control, and
  \<open>hasSetSelectionRange\<close> says whether the element has the method (a \<open>textarea\<close> or an
  \<open>input\<close> has, a \<open>div\<close> has not). \<open>events\<close> lists the event types dispatched on the
  element, oldest first. \<open>rangeAtEnd\<close> says that the selection of the document is a
  collapsed range behind the element's last child, which is where both
  \<open>setStartAfter(lastChild)\<close> and, without children, \<open>setStart(element, 0)\<close> put it.
  \<open>rangeMovesCaret\<close> is the host's part in what the calls on the document's selection do
  to the own selection of a focused text control: the standard keeps the two apart and
  the control's selection stays, while Chromium reports it as 0 to 0 afterwards.
\<close>

record box =
  contentEditable :: string
  tagName :: string
  classList :: "string list"
  content :: content
  dom_value :: string
  selectionStart :: nat
  selectionEnd :: nat
  hasSetSelectionRange :: bool
  events :: "string list"
  focused :: bool
  rangeAtEnd :: bool
  rangeMovesCaret :: bool

text \<open>
  The setter of \<open>value\<close> on a \<open>textarea\<close>, after the HTML standard: the value read back has
  its line breaks normalised (CR LF and a lone CR become LF), and the text entry cursor
  moves to the end of the text only if that value differs from the one before.
\<close>

fun normalize_newlines :: "string \<Rightarrow> string" where
  "normalize_newlines [] = []"
| "normalize_newlines [c] = [if c = CHR 0x0D then CHR 0x0A else c]"
| "normalize_newlines (c # d # cs) =
     (if c = CHR 0x0D \<and> d = CHR 0x0A then CHR 0x0A # normalize_newlines cs
      else if c = CHR 0x0D then CHR 0x0A # normalize_newlines (d # cs)
      else c # normalize_newlines (d # cs))"

definition set_value :: "string \<Rightarrow> box \<Rightarrow> box" where
  "set_value v b =
     (let new = normalize_newlines v
      in if new \<noteq> dom_value b
         then b\<lparr>dom_value := new, selectionStart := length new, selectionEnd := length new\<rparr>
         else b)"

definition set_textContent :: "string \<Rightarrow> box \<Rightarrow> box" where
  "set_textContent s b = b\<lparr>content := Text s\<rparr>"

definition set_innerHTML :: "string \<Rightarrow> box \<Rightarrow> box" where
  "set_innerHTML m b = b\<lparr>content := Html m\<rparr>"

definition dispatchEvent :: "string \<Rightarrow> box \<Rightarrow> box" where
  "dispatchEvent type b = b\<lparr>events := events b @ [type]\<rparr>"

text \<open>
  \<open>escapeHtml\<close>: the text goes into a fresh \<open>div\<close> as its text content and is read back
  as markup, which writes \<open>&\<close>, U+00A0, \<open><\<close> and \<open>>\<close> as character references.
\<close>

definition escape_char :: "char \<Rightarrow> string" where
  "escape_char c =
     (if c = CHR ''&'' then ''&amp;''
      else if c = CHR 0xA0 then ''&nbsp;''
      else if c = CHR ''<'' then ''&lt;''
      else if c = CHR ''>'' then ''&gt;''
      else [c])"

definition escapeHtml :: "string \<Rightarrow> string" where
  "escapeHtml text = concat (map escape_char text)"

text \<open>
  \<open>setCursorToEnd\<close>. \<open>range_raises\<close> is the host's part: whether one of the calls on the
  range and the selection in the \<open>try\<close> block raises. Only then does the \<open>catch\<close> block
  run, which sets the selection of a text control to the length of its value. When
  nothing raises, the own selection of a text control is touched by no statement of the
  function; it is 0 to 0 afterwards on a host that moves it with the document's selection.
\<close>

definition setCursorToEnd :: "bool \<Rightarrow> box \<Rightarrow> box" where
  "setCursorToEnd range_raises element =
     (if \<not> range_raises
      then (if rangeMovesCaret element \<and> hasSetSelectionRange element
            then element\<lparr>rangeAtEnd := True, selectionStart := 0, selectionEnd := 0\<rparr>
            else element\<lparr>rangeAtEnd := True\<rparr>)
      else if hasSetSelectionRange element
           then element\<lparr>selectionStart := length (dom_value element),
                         selectionEnd := length (dom_value element)\<rparr>
           else element)"

text \<open>\<open>insertReply\<close> of the context-aware script; nothing in its \<open>try\<close> block raises.\<close>

definition insertReply :: "site \<Rightarrow> bool \<Rightarrow> string \<Rightarrow> box \<Rightarrow> box" where
  "insertReply s range_raises replyText commentBox =
     (let b0 = commentBox\<lparr>focused := True\<rparr>;
          b1 =
            (if isYouTube s then
               (if contentEditable b0 = ''true''
                then dispatchEvent ''change'' (dispatchEvent ''input''
                       (set_textContent replyText b0))
                else if tagName b0 = ''TEXTAREA''
                then dispatchEvent ''change'' (dispatchEvent ''input''
                       (set_value replyText b0))
                else b0)
             else if isLinkedIn s then
               (if ''ql-editor'' \<in> set (classList b0)
                then dispatchEvent ''blur'' (dispatchEvent ''input''
                       (set_innerHTML (''<p>'' @ replyText @ ''</p>'') b0))
                else dispatchEvent ''input'' (set_textContent replyText b0))
             else b0)
      in setCursorToEnd range_raises b1)"

text \<open>
  \<open>insertReply\<close> of \<open>content.js\<close>: the same writes, with the \<open>input\<close> event alone.
\<close>

definition insertReply_simple :: "site \<Rightarrow> bool \<Rightarrow> string \<Rightarrow> box \<Rightarrow> box" where
  "insertReply_simple s range_raises replyText commentBox =
     (let b0 = commentBox\<lparr>focused := True\<rparr>;
          b1 =
            (if isYouTube s then
               (if contentEditable b0 = ''true''
                then dispatchEvent ''input'' (set_textContent replyText b0)
                else if tagName b0 = ''TEXTAREA''
                then dispatchEvent ''input'' (set_value replyText b0)
                else b0)
             else if isLinkedIn s then
               (if ''ql-editor'' \<in> set (classList b0)
                then dispatchEvent ''input''
                       (set_innerHTML (''<p>'' @ replyText @ ''</p>'') b0)
                else dispatchEvent ''input'' (set_textContent replyText b0))
             else b0)
      in setCursorToEnd range_raises b1)"

subsection \<open>Two comment boxes\<close>

definition quill_editor :: box where
  "quill_editor =
     \<lparr>contentEditable = ''true'', tagName = ''DIV'', classList = [''ql-editor'', ''ql-blank''],
      content = Text [], dom_value = [], selectionStart = 0, selectionEnd = 0,
      hasSetSelectionRange = False, events = [], focused = False, rangeAtEnd = False,
      rangeMovesCaret = False\<rparr>"

definition textarea :: box where
  "textarea =
     \<lparr>contentEditable = ''inherit'', tagName = ''TEXTAREA'', classList = [],
      content = Text [], dom_value = ''Hi'', selectionStart = 0, selectionEnd = 0,
      hasSetSelectionRange = True, events = [], focused = False, rangeAtEnd = False,
      rangeMovesCaret = False\<rparr>"

lemma insertReply_quill:
  "isLinkedIn s \<Longrightarrow> \<not> isYouTube s \<Longrightarrow> ''ql-editor'' \<in> set (classList commentBox) \<Longrightarrow>
   content (insertReply s range_raises replyText commentBox) =
     Html (''<p>'' @ replyText @ ''</p>'') \<and>
   content (insertReply_simple s range_raises replyText commentBox) =
     Html (''<p>'' @ replyText @ ''</p>'')"
  by (simp add: insertReply_def insertReply_simple_def Let_def setCursorToEnd_def
      dispatchEvent_def set_innerHTML_def)

text \<open>
  C2. On LinkedIn, a reply holding markup (an image with an error handler, a \<open>script\<close>
  element) goes into the Quill editor as markup, character for character, in both
  scripts; the escaped text that \<open>escapeHtml\<close> produces for the reply list is not what
  is written.
\<close>

theorem insertReply_writes_raw_markup:
  "content (insertReply linkedin False ''<img src=x onerror=alert(1)>'' quill_editor) =
     Html ''<p><img src=x onerror=alert(1)></p>'' \<and>
   content (insertReply linkedin False ''<script>alert(1)</script>'' quill_editor) =
     Html ''<p><script>alert(1)</script></p>'' \<and>
   content (insertReply_simple linkedin False ''<script>alert(1)</script>'' quill_editor) =
     Html ''<p><script>alert(1)</script></p>'' \<and>
   escapeHtml ''<script>alert(1)</script>'' = ''&lt;script&gt;alert(1)&lt;/script&gt;'' \<and>
   escapeHtml ''<img src=x onerror=alert(1)>'' = ''&lt;img src=x onerror=alert(1)&gt;''"
  by (simp add: insertReply_def insertReply_simple_def Let_def setCursorToEnd_def
      dispatchEvent_def set_innerHTML_def linkedin_def quill_editor_def escapeHtml_def
      escape_char_def)

text \<open>
  Where the caret of a \<open>textarea\<close> on YouTube does end behind the text: when the calls
  on the range raise, so that the \<open>catch\<close> block runs; and, on a host that keeps the
  control's selection apart, when the assignment changed the value. On a host that moves
  it, the selection is 0 to 0 after every insertion that raises nothing.
\<close>

lemma insertReply_textarea:
  assumes "isYouTube s" "contentEditable commentBox \<noteq> ''true''"
    "tagName commentBox = ''TEXTAREA''" "hasSetSelectionRange commentBox"
    "range_raises \<or>
     (\<not> rangeMovesCaret commentBox \<and> normalize_newlines replyText \<noteq> dom_value commentBox)"
  shows "dom_value (insertReply s range_raises replyText commentBox) =
      normalize_newlines replyText \<and>
    selectionStart (insertReply s range_raises replyText commentBox) =
      length (normalize_newlines replyText) \<and>
    selectionEnd (insertReply s range_raises replyText commentBox) =
      length (normalize_newlines replyText)"
  using assms
  by (auto simp: insertReply_def Let_def setCursorToEnd_def dispatchEvent_def set_value_def)

lemma insertReply_textarea_moved:
  assumes "isYouTube s" "contentEditable commentBox \<noteq> ''true''"
    "tagName commentBox = ''TEXTAREA''" "hasSetSelectionRange commentBox"
    "rangeMovesCaret commentBox"
  shows "dom_value (insertReply s False replyText commentBox) = normalize_newlines replyText \<and>
    selectionStart (insertReply s False replyText commentBox) = 0 \<and>
    selectionEnd (insertReply s False replyText commentBox) = 0"
  using assms
  by (auto simp: insertReply_def Let_def setCursorToEnd_def dispatchEvent_def set_value_def)

text \<open>
  C8. A \<open>textarea\<close> on YouTube that already holds the reply, with the caret at its start:
  the assignment to \<open>value\<close> changes nothing and so moves no caret, the \<open>try\<close> block of
  \<open>setCursorToEnd\<close> completes, and the selection is still 0 to 0 behind a text of length 2.
  On a host that moves the control's selection with the document's, the selection is 0 to
  0 behind a new text of length 11 as well.
\<close>

theorem setCursorToEnd_leaves_textarea_selection:
  "dom_value (insertReply youtube False ''Hi'' textarea) = ''Hi'' \<and>
   selectionStart (insertReply youtube False ''Hi'' textarea) = 0 \<and>
   selectionEnd (insertReply youtube False ''Hi'' textarea) = 0 \<and>
   selectionStart (insertReply_simple youtube False ''Hi'' textarea) = 0 \<and>
   selectionStart (setCursorToEnd False textarea) = selectionStart textarea \<and>
   selectionStart (setCursorToEnd True textarea) = 2 \<and>
   dom_value (insertReply youtube False ''Nice video!'' (textarea\<lparr>rangeMovesCaret := True\<rparr>)) =
     ''Nice video!'' \<and>
   selectionStart
     (insertReply youtube False ''Nice video!'' (textarea\<lparr>rangeMovesCaret := True\<rparr>)) = 0 \<and>
   selectionEnd
     (insertReply youtube False ''Nice video!'' (textarea\<lparr>rangeMovesCaret := True\<rparr>)) = 0"
  by (simp add: insertReply_def insertReply_simple_def Let_def setCursorToEnd_def
      dispatchEvent_def set_value_def youtube_def textarea_def)

section \<open>Topic extraction\<close>

definition stopWords :: "string list" where
  "stopWords =
     [''this'', ''that'', ''with'', ''have'', ''will'', ''from'', ''they'', ''been'', ''were'',
      ''said'', ''each'', ''which'', ''their'', ''time'', ''would'', ''there'', ''could'',
      ''other'']"

text \<open>
  The chain \<open>toLowerCase().replace(/[^\w\s]/g, '').split(/\s+/).filter(...).filter(...)\<close>.
\<close>

definition topicWords :: "string \<Rightarrow> string list" where
  "topicWords text =
     filter (\<lambda>word. word \<notin> set stopWords)
       (filter (\<lambda>word. length word > 3)
          (split_re is_space_char []
             (filter (\<lambda>c. is_word_char c \<or> is_space_char c) (toLowerCase text))))"

text \<open>
  \<open>wordCount\<close> is a plain object, so three rules of the language shape the frequency
  table. The model keeps the own properties in order of creation.
  \<^item> A key inherited from \<open>Object.prototype\<close> reads as a truthy value before it is ever
    counted. Of those keys only \<open>constructor\<close> and \<open>__proto__\<close> can be a topic word (the
    others hold a capital letter). For \<open>constructor\<close> the sum is the text of a function
    followed by \<open>1\<close>, stored as an own property: a string that is not a number. For
    \<open>__proto__\<close> the assignment of such a string goes to the inherited setter, which
    ignores it, so the word never becomes a property.
  \<^item> \<open>Object.entries\<close> lists the keys that are array indices first, in ascending numeric
    order, and the other keys after them in order of creation. An array index is the
    decimal form, without leading zeros, of an integer below \<open>2^32 - 1\<close>.
  \<^item> \<open>sort\<close> is stable, and a comparator result that is not a number counts as zero.
    With \<open>constructor\<close> in the table the comparator can be inconsistent, and the order
    is then left to the implementation; the model sorts by insertion all the same.
\<close>

datatype count = Count nat | NotANumber

definition increment :: "string \<Rightarrow> (string \<times> count) list \<Rightarrow> (string \<times> count) list" where
  "increment word wordCount =
     (case map_of wordCount word of
        Some (Count n) \<Rightarrow>
          map (\<lambda>(k, v). if k = word then (k, Count (n + 1)) else (k, v)) wordCount
      | Some NotANumber \<Rightarrow> wordCount
      | None \<Rightarrow>
          if word = ''__proto__'' then wordCount
          else if word = ''constructor'' then wordCount @ [(word, NotANumber)]
          else wordCount @ [(word, Count 1)])"

definition index_value :: "string \<Rightarrow> int" where
  "index_value s = foldl (\<lambda>n c. 10 * n + (of_char c - 48)) 0 s"

definition is_array_index :: "string \<Rightarrow> bool" where
  "is_array_index s =
     (s \<noteq> [] \<and> list_all (\<lambda>c. c \<in> set ''0123456789'') s \<and>
      (s = ''0'' \<or> hd s \<noteq> CHR ''0'') \<and> index_value s < 4294967295)"

definition entries :: "(string \<times> count) list \<Rightarrow> (string \<times> count) list" where
  "entries obj =
     sort_key (\<lambda>(k, v). index_value k) (filter (\<lambda>(k, v). is_array_index k) obj) @
     filter (\<lambda>(k, v). \<not> is_array_index k) obj"

text \<open>The comparator \<open>([, a], [, b]) => b - a\<close>.\<close>

definition by_count :: "string \<times> count \<Rightarrow> string \<times> count \<Rightarrow> int" where
  "by_count x y =
     (case (snd x, snd y) of
        (Count a, Count b) \<Rightarrow> int b - int a
      | _ \<Rightarrow> 0)"

fun insert_sorted :: "('a \<Rightarrow> 'a \<Rightarrow> int) \<Rightarrow> 'a \<Rightarrow> 'a list \<Rightarrow> 'a list" where
  "insert_sorted cmp x [] = [x]"
| "insert_sorted cmp x (y # ys) =
     (if cmp x y \<le> 0 then x # y # ys else y # insert_sorted cmp x ys)"

definition js_sort :: "('a \<Rightarrow> 'a \<Rightarrow> int) \<Rightarrow> 'a list \<Rightarrow> 'a list" where
  "js_sort cmp xs = foldr (insert_sorted cmp) xs []"

definition extractTopics :: "string \<Rightarrow> string list" where
  "extractTopics text =
     (if text = [] then []
      else map fst (take 5 (js_sort by_count
             (entries (foldl (\<lambda>wordCount word. increment word wordCount) []
                (topicWords text))))))"

text \<open>
  The order the specification ranks topics by. \<open>first_position\<close> is the place of a word's
  first occurrence; \<open>enumerated_before\<close> is the order in which \<open>Object.entries\<close> lists
  two keys of the frequency table; \<open>ranks_before\<close> puts the more frequent word first and,
  for equal frequencies, the one listed first.
\<close>

definition first_position :: "'a list \<Rightarrow> 'a \<Rightarrow> nat" where
  "first_position ws w = length (takeWhile (\<lambda>x. x \<noteq> w) ws)"

definition enumerated_before :: "string list \<Rightarrow> string \<Rightarrow> string \<Rightarrow> bool" where
  "enumerated_before ws a b =
     (if is_array_index a
      then (if is_array_index b then index_value a < index_value b else True)
      else (if is_array_index b then False else first_position ws a < first_position ws b))"

definition ranks_before :: "string list \<Rightarrow> string \<Rightarrow> string \<Rightarrow> bool" where
  "ranks_before ws a b =
     (count_list ws b < count_list ws a \<or>
      (count_list ws a = count_list ws b \<and> enumerated_before ws a b))"

lemma keep_first_snoc:
  "keep_first (ws @ [w]) = (if w \<in> set ws then keep_first ws else keep_first ws @ [w])"
  by (simp add: keep_first_def)

lemma map_of_keys:
  "map_of (map (\<lambda>k. (k, f k)) ks) w = (if w \<in> set ks then Some (f w) else None)"
  by (induction ks) simp_all

lemma increment_known:
  assumes "w \<in> set ws"
  shows "increment w (map (\<lambda>k. (k, Count (count_list ws k))) (keep_first ws)) =
    map (\<lambda>k. (k, Count (count_list (ws @ [w]) k))) (keep_first ws)"
  using assms
  by (simp add: increment_def map_of_keys set_keep_first)

lemma increment_new:
  assumes "w \<notin> set ws" "w \<noteq> ''constructor''" "w \<noteq> ''__proto__''"
  shows "increment w (map (\<lambda>k. (k, Count (count_list ws k))) (keep_first ws)) =
    map (\<lambda>k. (k, Count (count_list (ws @ [w]) k))) (keep_first ws @ [w])"
  using assms
  by (auto simp: increment_def map_of_keys set_keep_first count_list_0_iff)

lemma wordCount_table:
  assumes "''constructor'' \<notin> set ws" "''__proto__'' \<notin> set ws"
  shows "foldl (\<lambda>wordCount word. increment word wordCount) [] ws =
    map (\<lambda>k. (k, Count (count_list ws k))) (keep_first ws)"
  using assms
proof (induction ws rule: rev_induct)
  case Nil
  show ?case by (simp add: keep_first_Nil)
next
  case (snoc w ws)
  then have ih: "foldl (\<lambda>wordCount word. increment word wordCount) [] ws =
      map (\<lambda>k. (k, Count (count_list ws k))) (keep_first ws)"
    and w: "w \<noteq> ''constructor''" "w \<noteq> ''__proto__''"
    by auto
  show ?case
  proof (cases "w \<in> set ws")
    case True
    then show ?thesis
      by (simp only: foldl_append foldl.simps ih increment_known keep_first_snoc if_True)
  next
    case False
    then show ?thesis
      by (simp only: foldl_append foldl.simps ih increment_new [OF False w] keep_first_snoc
          if_False)
  qed
qed

definition enum_order :: "string list \<Rightarrow> string list" where
  "enum_order ks =
     sort_key index_value (filter is_array_index ks) @ filter (\<lambda>k. \<not> is_array_index k) ks"

lemma insort_key_map:
  "insort_key f (g x) (map g xs) = map g (insort_key (\<lambda>y. f (g y)) x xs)"
  by (induction xs) simp_all

lemma sort_key_map: "sort_key f (map g xs) = map g (sort_key (\<lambda>y. f (g y)) xs)"
  by (induction xs) (simp_all add: insort_key_map)

lemma entries_map:
  "entries (map (\<lambda>k. (k, c k)) ks) = map (\<lambda>k. (k, c k)) (enum_order ks)"
  by (simp add: entries_def enum_order_def filter_map comp_def sort_key_map)

lemma insert_sorted_map:
  "insert_sorted by_count (k, Count (c k)) (map (\<lambda>k. (k, Count (c k))) ys) =
     map (\<lambda>k. (k, Count (c k))) (insort_key (\<lambda>k. - int (c k)) k ys)"
  by (induction ys) (simp_all add: by_count_def)

lemma js_sort_map:
  "js_sort by_count (map (\<lambda>k. (k, Count (c k))) ks) =
     map (\<lambda>k. (k, Count (c k))) (sort_key (\<lambda>k. - int (c k)) ks)"
  by (induction ks) (simp_all add: js_sort_def insert_sorted_map)

definition ranked :: "string list \<Rightarrow> string list" where
  "ranked ws = sort_key (\<lambda>k. - int (count_list ws k)) (enum_order (keep_first ws))"

lemma topicWords_empty: "topicWords [] = []"
  by (simp add: topicWords_def toLowerCase_def)

lemma extractTopics_ranked:
  assumes "''constructor'' \<notin> set (topicWords text)" "''__proto__'' \<notin> set (topicWords text)"
  shows "extractTopics text = take 5 (ranked (topicWords text))"
proof (cases "text = []")
  case True
  then show ?thesis
    by (simp add: extractTopics_def ranked_def topicWords_empty keep_first_Nil enum_order_def)
next
  case False
  then show ?thesis
    by (simp add: extractTopics_def wordCount_table [OF assms] entries_map js_sort_map
        ranked_def take_map comp_def)
qed

lemma insort_key_sorted_wrt:
  fixes f :: "'a \<Rightarrow> 'b::linorder"
  assumes "sorted_wrt (\<lambda>a b. f a < f b \<or> (f a = f b \<and> Q a b)) ys" "\<forall>y\<in>set ys. Q x y"
  shows "sorted_wrt (\<lambda>a b. f a < f b \<or> (f a = f b \<and> Q a b)) (insort_key f x ys)"
  using assms
proof (induction ys)
  case Nil
  show ?case by simp
next
  case (Cons y ys)
  show ?case
  proof (cases "f x \<le> f y")
    case True
    have "f x < f z \<or> (f x = f z \<and> Q x z)" if "z \<in> set (y # ys)" for z
    proof -
      have "f y \<le> f z" using that Cons.prems(1) by auto
      with True have "f x \<le> f z" by simp
      moreover have "Q x z" using that Cons.prems(2) by auto
      ultimately show ?thesis by (auto simp: le_less)
    qed
    with True Cons.prems(1) show ?thesis by simp
  next
    case False
    then have "f y < f x" by simp
    with False Cons show ?thesis by (auto simp: set_insort_key)
  qed
qed

lemma sort_key_sorted_wrt:
  fixes f :: "'a \<Rightarrow> 'b::linorder"
  shows "sorted_wrt Q xs \<Longrightarrow>
    sorted_wrt (\<lambda>a b. f a < f b \<or> (f a = f b \<and> Q a b)) (sort_key f xs)"
  by (induction xs) (simp_all add: insort_key_sorted_wrt)

lemma first_position_Cons:
  "first_position (x # xs) y = (if y = x then 0 else Suc (first_position xs y))"
  by (simp add: first_position_def)

lemma keep_first_positions:
  "sorted_wrt (\<lambda>a b. first_position ws a < first_position ws b) (keep_first ws)"
proof (induction ws)
  case Nil
  show ?case by (simp add: keep_first_Nil)
next
  case (Cons x xs)
  have "sorted_wrt (\<lambda>a b. first_position xs a < first_position xs b)
      (filter (\<lambda>y. y \<noteq> x) (keep_first xs))"
    using Cons by (rule sorted_wrt_filter)
  then have "sorted_wrt (\<lambda>a b. first_position (x # xs) a < first_position (x # xs) b)
      (filter (\<lambda>y. y \<noteq> x) (keep_first xs))"
    by (rule sorted_wrt_mono_rel [rotated]) (simp add: first_position_Cons)
  then show ?case
    by (simp add: keep_first_Cons first_position_Cons)
qed

definition digit :: "char \<Rightarrow> bool" where
  "digit c = (c \<in> set ''0123456789'')"

lemma digit_value:
  assumes "digit c"
  shows "48 \<le> (of_char c :: int)" "(of_char c :: int) \<le> 57"
    "c \<noteq> CHR ''0'' \<Longrightarrow> 49 \<le> (of_char c :: int)"
  using assms by (auto simp: digit_def)

lemma index_value_snoc: "index_value (s @ [c]) = 10 * index_value s + (of_char c - 48)"
  by (simp add: index_value_def)

lemma index_value_pos:
  "s \<noteq> [] \<Longrightarrow> list_all digit s \<Longrightarrow> hd s \<noteq> CHR ''0'' \<Longrightarrow> 0 < index_value s"
proof (induction s rule: rev_induct)
  case Nil
  then show ?case by simp
next
  case (snoc c s)
  have d: "digit c" using snoc.prems by simp
  show ?case
  proof (cases "s = []")
    case True
    with snoc.prems have "c \<noteq> CHR ''0''" by simp
    with d have "49 \<le> (of_char c :: int)" by (rule digit_value(3))
    with True show ?thesis by (simp add: index_value_def)
  next
    case False
    with snoc have "0 < index_value s" by simp
    moreover have "48 \<le> (of_char c :: int)" using d by (rule digit_value(1))
    ultimately show ?thesis by (simp add: index_value_snoc)
  qed
qed

lemma index_value_inj:
  "a \<noteq> [] \<Longrightarrow> list_all digit a \<Longrightarrow> hd a \<noteq> CHR ''0'' \<Longrightarrow>
   b \<noteq> [] \<Longrightarrow> list_all digit b \<Longrightarrow> hd b \<noteq> CHR ''0'' \<Longrightarrow>
   index_value a = index_value b \<Longrightarrow> a = b"
proof (induction a arbitrary: b rule: rev_induct)
  case Nil
  then show ?case by simp
next
  case (snoc c xs)
  from \<open>b \<noteq> []\<close> obtain d ys where b: "b = ys @ [d]"
    by (cases b rule: rev_cases) auto
  have "digit c" "digit d" using snoc.prems b by simp_all
  then have dc: "48 \<le> (of_char c :: int)" "(of_char c :: int) \<le> 57"
    and dd: "48 \<le> (of_char d :: int)" "(of_char d :: int) \<le> 57"
    by (simp_all add: digit_value)
  have eq: "10 * index_value xs + (of_char c - 48) = 10 * index_value ys + (of_char d - 48)"
    using snoc.prems b by (simp add: index_value_snoc)
  have v: "index_value xs = index_value ys" using eq dc dd by arith
  with eq have "(of_char c :: int) = of_char d" by simp
  then have cd: "c = d" by simp
  have "xs = ys"
  proof (cases "xs = []")
    case True
    show ?thesis
    proof (cases "ys = []")
      case True
      with \<open>xs = []\<close> show ?thesis by simp
    next
      case False
      with snoc.prems b have "0 < index_value ys" by (intro index_value_pos) auto
      with v True show ?thesis by (simp add: index_value_def)
    qed
  next
    case False
    show ?thesis
    proof (cases "ys = []")
      case True
      from False snoc.prems have "0 < index_value xs" by (intro index_value_pos) auto
      with v True show ?thesis by (simp add: index_value_def)
    next
      case ys: False
      with False snoc.prems b v show ?thesis by (intro snoc.IH) auto
    qed
  qed
  with cd b show ?case by simp
qed

lemma array_index_inj:
  assumes "is_array_index a" "is_array_index b" "index_value a = index_value b"
  shows "a = b"
proof -
  have da: "a \<noteq> []" "list_all digit a" and db: "b \<noteq> []" "list_all digit b"
    using assms by (simp_all add: is_array_index_def digit_def [abs_def])
  have zero: "index_value ''0'' = 0" by (simp add: index_value_def)
  show ?thesis
  proof (cases "a = ''0''")
    case True
    show ?thesis
    proof (cases "b = ''0''")
      case True
      with \<open>a = ''0''\<close> show ?thesis by simp
    next
      case False
      with assms(2) have "hd b \<noteq> CHR ''0''" by (simp add: is_array_index_def)
      with db have "0 < index_value b" by (intro index_value_pos)
      with assms(3) True zero show ?thesis by simp
    qed
  next
    case False
    with assms(1) have ha: "hd a \<noteq> CHR ''0''" by (simp add: is_array_index_def)
    show ?thesis
    proof (cases "b = ''0''")
      case True
      from da ha have "0 < index_value a" by (intro index_value_pos)
      with assms(3) True zero show ?thesis by simp
    next
      case False
      with assms(2) have "hd b \<noteq> CHR ''0''" by (simp add: is_array_index_def)
      with da ha db assms(3) show ?thesis by (intro index_value_inj)
    qed
  qed
qed

lemma sorted_wrt_distinct:
  "sorted_wrt P xs \<Longrightarrow> distinct xs \<Longrightarrow> sorted_wrt (\<lambda>a b. P a b \<and> a \<noteq> b) xs"
  by (induction xs) auto

lemma enum_order_sorted:
  "sorted_wrt (enumerated_before ws) (enum_order (keep_first ws))"
proof -
  let ?A = "sort_key index_value (filter is_array_index (keep_first ws))"
  let ?B = "filter (\<lambda>k. \<not> is_array_index k) (keep_first ws)"
  have "sorted (map index_value ?A)" by (rule sorted_sort_key)
  then have "sorted_wrt (\<lambda>a b. index_value a \<le> index_value b) ?A"
    by (simp add: sorted_map)
  moreover have "distinct ?A" by (simp add: distinct_keep_first)
  ultimately have "sorted_wrt (\<lambda>a b. index_value a \<le> index_value b \<and> a \<noteq> b) ?A"
    by (rule sorted_wrt_distinct)
  then have a: "sorted_wrt (enumerated_before ws) ?A"
  proof (rule sorted_wrt_mono_rel [rotated])
    fix x y
    assume "x \<in> set ?A" "y \<in> set ?A" "index_value x \<le> index_value y \<and> x \<noteq> y"
    then have "is_array_index x" "is_array_index y" "index_value x \<le> index_value y" "x \<noteq> y"
      by auto
    moreover from this have "index_value x \<noteq> index_value y"
      using array_index_inj by blast
    ultimately show "enumerated_before ws x y" by (simp add: enumerated_before_def)
  qed
  have "sorted_wrt (\<lambda>a b. first_position ws a < first_position ws b) ?B"
    using keep_first_positions by (rule sorted_wrt_filter)
  then have b: "sorted_wrt (enumerated_before ws) ?B"
    by (rule sorted_wrt_mono_rel [rotated]) (simp add: enumerated_before_def)
  have c: "\<forall>x\<in>set ?A. \<forall>y\<in>set ?B. enumerated_before ws x y"
    by (simp add: enumerated_before_def)
  show ?thesis
    unfolding enum_order_def sorted_wrt_append using a b c by blast
qed

lemma ranked_sorted: "sorted_wrt (ranks_before ws) (ranked ws)"
proof -
  have "sorted_wrt (\<lambda>a b. - int (count_list ws a) < - int (count_list ws b) \<or>
      (- int (count_list ws a) = - int (count_list ws b) \<and> enumerated_before ws a b))
      (ranked ws)"
    unfolding ranked_def by (rule sort_key_sorted_wrt) (rule enum_order_sorted)
  then show ?thesis
    by (rule sorted_wrt_mono_rel [rotated]) (auto simp: ranks_before_def)
qed

lemma ranked_set: "set (ranked ws) = set ws" "distinct (ranked ws)"
  by (auto simp: ranked_def enum_order_def set_keep_first distinct_keep_first)

lemma extractTopics_length: "length (extractTopics text) \<le> 5"
  by (simp add: extractTopics_def)

text \<open>
  C5, as stated, fails on two inputs. In the specification's own example \<open>fox\<close> has
  length 3 and is discarded with \<open>the\<close>; and of two words with the same frequency a
  number comes first even when it occurs later in the text.
\<close>

theorem extractTopics_tie_order:
  "extractTopics ''the quick quick brown brown brown fox'' = [''brown'', ''quick''] \<and>
   extractTopics ''hello 2024'' = [''2024'', ''hello''] \<and>
   topicWords ''hello 2024'' = [''hello'', ''2024'']"
proof -
  have a: "extractTopics ''the quick quick brown brown brown fox'' = [''brown'', ''quick'']"
    by code_simp
  have b: "extractTopics ''hello 2024'' = [''2024'', ''hello'']"
    by code_simp
  have c: "topicWords ''hello 2024'' = [''hello'', ''2024'']"
    by code_simp
  from a b c show ?thesis by simp
qed

text \<open>
  C5, amended. \<open>topicWords\<close> is the text lowercased, stripped of every character that is
  neither a word character nor white space, split on white space, without the pieces of
  length 3 or less and without the stop words. For a text none of whose topic words is
  \<open>constructor\<close> or \<open>__proto__\<close>, \<open>extractTopics\<close> returns the first five entries of the
  list of the distinct topic words ranked by descending frequency, words of equal frequency
  in the order of \<open>Object.entries\<close>: array indices first, in ascending numeric order, then
  the other words by first occurrence; the result has at most five words.
\<close>

theorem extractTopics_ranking:
  assumes "''constructor'' \<notin> set (topicWords text)" "''__proto__'' \<notin> set (topicWords text)"
  shows "(\<exists>r. extractTopics text = take 5 r \<and> distinct r \<and> set r = set (topicWords text) \<and>
            sorted_wrt (ranks_before (topicWords text)) r) \<and>
    set (extractTopics text) \<subseteq> {w. 3 < length w \<and> w \<notin> set stopWords} \<and>
    length (extractTopics text) \<le> 5"
proof -
  let ?r = "ranked (topicWords text)"
  have e: "extractTopics text = take 5 ?r"
    using assms by (rule extractTopics_ranked)
  have "set (take 5 ?r) \<subseteq> set (topicWords text)"
    using set_take_subset [of 5 ?r] by (simp add: ranked_set)
  also have "\<dots> \<subseteq> {w. 3 < length w \<and> w \<notin> set stopWords}"
    by (auto simp: topicWords_def)
  finally have s: "set (extractTopics text) \<subseteq> {w. 3 < length w \<and> w \<notin> set stopWords}"
    by (simp add: e)
  have "extractTopics text = take 5 ?r \<and> distinct ?r \<and> set ?r = set (topicWords text) \<and>
      sorted_wrt (ranks_before (topicWords text)) ?r"
    using e by (simp add: ranked_set ranked_sorted)
  then show ?thesis using s e by auto
qed

theorem extractTopics_ranking_witness:
  "''constructor'' \<notin> set (topicWords ''Hello 2024, hello world. In 2024 and 1999!'') \<and>
   ''__proto__'' \<notin> set (topicWords ''Hello 2024, hello world. In 2024 and 1999!'') \<and>
   extractTopics ''Hello 2024, hello world. In 2024 and 1999!'' =
     [''2024'', ''hello'', ''1999'', ''world''] \<and>
   (\<exists>r. extractTopics ''Hello 2024, hello world. In 2024 and 1999!'' = take 5 r \<and>
        distinct r \<and>
        set r = set (topicWords ''Hello 2024, hello world. In 2024 and 1999!'') \<and>
        sorted_wrt (ranks_before (topicWords ''Hello 2024, hello world. In 2024 and 1999!'')) r)"
proof -
  have w: "topicWords ''Hello 2024, hello world. In 2024 and 1999!'' =
      [''hello'', ''2024'', ''hello'', ''world'', ''2024'', ''1999'']"
    by code_simp
  have h1: "''constructor'' \<notin> set (topicWords ''Hello 2024, hello world. In 2024 and 1999!'')"
    and h2: "''__proto__'' \<notin> set (topicWords ''Hello 2024, hello world. In 2024 and 1999!'')"
    by (simp_all add: w)
  have e: "extractTopics ''Hello 2024, hello world. In 2024 and 1999!'' =
      [''2024'', ''hello'', ''1999'', ''world'']"
    by code_simp
  show ?thesis
    using extractTopics_ranking [OF h1 h2] h1 h2 e by blast
qed

section \<open>Context and reply generation\<close>

subsection \<open>The context record\<close>

text \<open>
  \<open>authorInfo\<close> starts as the empty string, is a string on LinkedIn and an object with
  \<open>name\<close> and \<open>subscribers\<close> on YouTube. \<open>topics\<close>, \<open>postType\<close> and \<open>videoStats\<close> are
  properties the object literal does not have: \<open>None\<close> is \<open>undefined\<close>.
\<close>

datatype author = AuthorText string | Channel (name: string) (subscribers: string)

datatype comment =
  Comment (comment_author: string) (comment_text: string) (comment_likes: "string option")

record reply_context =
  platform :: string
  postContent :: string
  postTitle :: string
  authorInfo :: author
  existingComments :: "comment list"
  timestamp :: string
  sentiment :: string
  topics :: "string list option"
  postType :: "string option"
  videoStats :: "(string \<times> string option) option"

datatype tone = Supportive | Analytical | Conversational | Question | Humorous | Professional

text \<open>
  The tone reaches the generator from the \<open>data-tone\<close> attribute of one of the six
  buttons \<open>createOptionsPanel\<close> builds, so it is one of their six identifiers.
\<close>

fun tone_id :: "tone \<Rightarrow> string" where
  "tone_id Supportive = ''supportive''"
| "tone_id Analytical = ''analytical''"
| "tone_id Conversational = ''conversational''"
| "tone_id Question = ''question''"
| "tone_id Humorous = ''humorous''"
| "tone_id Professional = ''professional''"

subsection \<open>String helpers\<close>

definition nl :: string where
  "nl = [CHR 0x0A]"

definition dq :: string where
  "dq = [CHR 0x22]"

text \<open>\<open>s.trim()\<close>: white space and line terminators go from both ends.\<close>

definition trim :: "string \<Rightarrow> string" where
  "trim s = rev (dropWhile is_space_char (rev (dropWhile is_space_char s)))"

text \<open>\<open>s.split(c)\<close> for a one-character separator.\<close>

fun split_on :: "char \<Rightarrow> string \<Rightarrow> string \<Rightarrow> string list" where
  "split_on sep cur [] = [cur]"
| "split_on sep cur (c # cs) =
     (if c = sep then cur # split_on sep [] cs else split_on sep (cur @ [c]) cs)"

text \<open>\<open>items.join(sep)\<close>.\<close>

fun join :: "string \<Rightarrow> string list \<Rightarrow> string" where
  "join sep [] = []"
| "join sep [x] = x"
| "join sep (x # y # ys) = x @ sep @ join sep (y # ys)"

text \<open>
  \<open>topics[i]\<close> where a string is being built (\<open>undefined\<close> prints as such), and
  \<open>topics[i] || d\<close>, where a missing or empty entry gives way to the default.
\<close>

definition item_text :: "string list \<Rightarrow> nat \<Rightarrow> string" where
  "item_text xs i = (if i < length xs then xs ! i else ''undefined'')"

definition item_or :: "string list \<Rightarrow> nat \<Rightarrow> string \<Rightarrow> string" where
  "item_or xs i d = (if i < length xs \<and> xs ! i \<noteq> [] then xs ! i else d)"

text \<open>
  \<open>w.charAt(0).toUpperCase() + w.slice(1)\<close>. Topic words are made of \<open>a-z\<close>, digits and
  the underscore; the capital of U+00DF is two letters, and the capitals of U+00B5 and
  U+00FF lie outside the modelled range, where the model leaves the letter as it is.
\<close>

definition upper_char :: "char \<Rightarrow> string" where
  "upper_char c =
     (let n = (of_char c :: nat)
      in if (97 \<le> n \<and> n \<le> 122) \<or> (224 \<le> n \<and> n \<le> 254 \<and> n \<noteq> 247)
         then [char_of (n - 32)]
         else if n = 223 then ''SS'' else [c])"

definition capitalize :: "string \<Rightarrow> string" where
  "capitalize w = (case w of [] \<Rightarrow> [] | c # cs \<Rightarrow> upper_char c @ cs)"

text \<open>\<open>context.authorInfo?.name\<close>, and \<open>name.split(' ')[0]\<close>.\<close>

definition author_name :: "author \<Rightarrow> string option" where
  "author_name a = (case a of AuthorText s \<Rightarrow> None | Channel n s \<Rightarrow> Some n)"

definition first_name :: "string \<Rightarrow> string" where
  "first_name n = takeWhile (\<lambda>c. c \<noteq> CHR '' '') n"

text \<open>
  The emoji of the templates lie outside the modelled range of characters. Each is written
  by its code point and stands for the two code units of its surrogate pair.
\<close>

definition emoji :: "nat \<Rightarrow> string" where
  "emoji code_point = ''??''"

subsection \<open>buildContextPrompt\<close>

fun tone_instructions :: "tone \<Rightarrow> string" where
  "tone_instructions Supportive =
     ''- Show encouragement and positivity'' @ nl @
     ''- Acknowledge the content meaningfully'' @ nl @
     ''- Add personal touch without being fake''"
| "tone_instructions Analytical =
     ''- Provide thoughtful insights'' @ nl @
     ''- Ask intelligent questions'' @ nl @
     ''- Reference specific points from the content''"
| "tone_instructions Conversational =
     ''- Sound natural and friendly'' @ nl @
     ''- Use casual language'' @ nl @
     ''- Share relatable thoughts or experiences''"
| "tone_instructions Question =
     ''- Ask engaging, specific questions'' @ nl @
     ''- Show genuine curiosity'' @ nl @
     ''- Reference the content directly''"
| "tone_instructions Humorous =
     ''- Add appropriate humor or wit'' @ nl @
     ''- Keep it light and fun'' @ nl @
     ''- Avoid offensive content''"
| "tone_instructions Professional =
     ''- Maintain professional tone'' @ nl @
     ''- Offer constructive insights'' @ nl @
     ''- Network appropriately''"

text \<open>The \<open>forEach\<close> over the first two comments; \<open>i\<close> is one of 0 and 1.\<close>

fun comment_lines :: "nat \<Rightarrow> comment list \<Rightarrow> string" where
  "comment_lines i [] = []"
| "comment_lines i (c # cs) =
     (if i = 0 then ''1'' else ''2'') @ ''. '' @ dq @ comment_text c @ dq @ nl @
     comment_lines (Suc i) cs"

text \<open>
  \<open>context.topics.length\<close> raises a \<open>TypeError\<close> when the context has no \<open>topics\<close>.
\<close>

definition buildContextPrompt :: "reply_context \<Rightarrow> tone \<Rightarrow> error + string" where
  "buildContextPrompt ctx tone =
     (let p0 = ''Generate 3 '' @ tone_id tone @ '' replies for a '' @ platform ctx @ '' '' @
               (case postType ctx of Some t \<Rightarrow> (if t = [] then ''post'' else t)
                                   | None \<Rightarrow> ''post'') @ ''.'' @ nl @ nl;
          p1 = (if postTitle ctx \<noteq> [] then p0 @ ''Title: '' @ dq @ postTitle ctx @ dq @ nl
                else p0);
          p2 = (if postContent ctx \<noteq> []
                then p1 @ ''Content: '' @ dq @ take 500 (postContent ctx) @ dq @ nl
                else p1);
          p3 = (case author_name (authorInfo ctx) of
                  Some n \<Rightarrow> (if n \<noteq> [] then p2 @ ''Author: '' @ n @ nl else p2)
                | None \<Rightarrow> p2)
      in case topics ctx of
           None \<Rightarrow> Inl TypeError
         | Some ts \<Rightarrow>
             (let p4 = (if length ts > 0 then p3 @ ''Key topics: '' @ join '', '' ts @ nl
                        else p3);
                  p5 = (if sentiment ctx \<noteq> ''neutral''
                        then p4 @ ''Post sentiment: '' @ sentiment ctx @ nl else p4);
                  p6 = (if length (existingComments ctx) > 0
                        then p5 @ nl @ ''Top comments:'' @ nl @
                             comment_lines 0 (take 2 (existingComments ctx))
                        else p5);
                  p7 = p6 @ nl @ ''Generate 3 '' @ tone_id tone @ '' replies that:'' @ nl;
                  p8 = p7 @ tone_instructions tone
              in Inr (p8 @ nl @ nl @
                   ''Keep each reply under 150 characters and make them sound human and authentic. Return only the 3 replies, one per line.'')))"

subsection \<open>callAIAPI\<close>

text \<open>
  What one endpoint answers. \<open>fetch\<close> rejects (a network error, or the abort after ten
  seconds), or there is a response with its \<open>ok\<close> flag, its status as text, and a body.
  Of the body the model keeps what the script reads: whether it parses as JSON, whether
  the parsed value is \<open>null\<close>, and what stands where the text is looked up
  (\<open>data[0]?.generated_text\<close> for Hugging Face,
  \<open>data.choices?.[0]?.message?.content || data.generated_text\<close> otherwise): nothing or
  a falsy value, a string, or a value that is truthy and no string.
\<close>

datatype body = NotJson | JsonNull | NoText | NotAString | GeneratedText string

datatype response = Rejected error | Response bool string body

record apiConfig =
  api_name :: string
  url :: string

definition primary :: apiConfig where
  "primary =
     \<lparr>api_name = ''Hugging Face'',
      url = ''https://api-inference.huggingface.co/models/microsoft/DialoGPT-medium''\<rparr>"

definition fallback :: apiConfig where
  "fallback =
     \<lparr>api_name = ''OpenAI-like Free API'', url = ''https://api.together.xyz/inference''\<rparr>"

definition nonempty_lines :: "string \<Rightarrow> string list" where
  "nonempty_lines s = filter (\<lambda>line. trim line \<noteq> []) (split_on (CHR 0x0A) [] s)"

text \<open>
  The end of \<open>callAIAPI\<close>: \<open>replies.slice(0, 3)\<close>, then the loop that is to fill the list
  up to three. Its body reads the variable \<open>tone\<close>, which is no parameter or variable of
  \<open>callAIAPI\<close> and is declared nowhere else in the script, so the first run of the body
  raises a \<open>ReferenceError\<close>; the \<open>catch\<close> block of \<open>callAIAPI\<close> raises it again.
\<close>

definition pad_replies :: "string list \<Rightarrow> error + string list" where
  "pad_replies lines =
     (let replies = take 3 lines
      in if length replies < 3 then Inl ReferenceError else Inr replies)"

definition callAIAPI :: "apiConfig \<Rightarrow> string \<Rightarrow> response \<Rightarrow> error + string list" where
  "callAIAPI config prompt answer =
     (case answer of
        Rejected e \<Rightarrow> Inl e
      | Response ok status data \<Rightarrow>
          if \<not> ok then Inl (Error (''API Error: '' @ status))
          else (case data of
                  NotJson \<Rightarrow> Inl SyntaxError
                | JsonNull \<Rightarrow> Inl TypeError
                | NotAString \<Rightarrow> Inl TypeError
                | NoText \<Rightarrow>
                    if api_name config = ''Hugging Face'' then pad_replies []
                    else pad_replies (nonempty_lines [])
                | GeneratedText s \<Rightarrow>
                    if api_name config = ''Hugging Face'' then pad_replies (nonempty_lines s)
                    else pad_replies (nonempty_lines (if s \<noteq> [] then s else []))))"

definition generateContextAwareReplies ::
  "reply_context \<Rightarrow> tone \<Rightarrow> response \<Rightarrow> response \<Rightarrow> error + string list" where
  "generateContextAwareReplies ctx tone answer1 answer2 =
     (case buildContextPrompt ctx tone of
        Inl e \<Rightarrow> Inl e
      | Inr prompt \<Rightarrow>
          (case callAIAPI primary prompt answer1 of
             Inr replies \<Rightarrow> Inr replies
           | Inl e \<Rightarrow>
               (case callAIAPI fallback prompt answer2 of
                  Inr replies \<Rightarrow> Inr replies
                | Inl fallbackError \<Rightarrow> Inl (Error ''All APIs failed''))))"

subsection \<open>generateFallbackReplies\<close>

text \<open>
  The object literal builds the templates of all six tones before one is picked, and the
  second one reads \<open>context.topics.length\<close>: without \<open>topics\<close> the call raises a
  \<open>TypeError\<close> whatever the tone.
\<close>

definition about_topic :: "string \<Rightarrow> string list \<Rightarrow> string" where
  "about_topic lead ts = (if length ts > 0 then lead @ item_text ts 0 else [])"

definition to_author :: "string \<Rightarrow> reply_context \<Rightarrow> string" where
  "to_author lead ctx =
     (case author_name (authorInfo ctx) of
        Some n \<Rightarrow> (if n \<noteq> [] then lead @ first_name n else [])
      | None \<Rightarrow> [])"

fun templates :: "tone \<Rightarrow> reply_context \<Rightarrow> string list \<Rightarrow> string list" where
  "templates Supportive ctx ts =
     [''Really appreciate you sharing this'' @
        (if postTitle ctx \<noteq> [] then '' about '' @ item_text ts 0 else []) @ ''! '' @
        (if sentiment ctx = ''positive'' then ''Your enthusiasm is contagious! '' @ emoji 0x1F31F
         else ''Thanks for the thoughtful perspective.''),
      ''This resonates with me so much'' @ about_topic '', especially the point about '' ts @
        ''. Keep up the great work! '' @ emoji 0x1F4AA,
      ''Love seeing content like this'' @ to_author '' from '' ctx @ ''. '' @
        (if sentiment ctx = ''positive'' then ''Your positivity is inspiring!''
         else ''Really valuable insights here.'')]"
| "templates Analytical ctx ts =
     [''Interesting perspective'' @ about_topic '' on '' ts @
        ''. Have you considered how this might impact '' @
        item_or ts 1 ''the broader industry'' @ ''?'',
      ''The point about '' @ item_or ts 0 ''this topic'' @
        '' is particularly compelling. What led you to this conclusion?'',
      ''This aligns with some recent trends I've noticed'' @ about_topic '' in '' ts @
        ''. Would love to hear more about your experience with this.'']"
| "templates Conversational ctx ts =
     [''Totally get what you mean'' @ about_topic '' about '' ts @ ''! '' @
        (if sentiment ctx = ''positive'' then ''Had a similar experience recently '' @ emoji 0x1F60A
         else ''Been thinking about this too lately.''),
      ''This is so relatable'' @ to_author '' '' ctx @ ''! '' @
        (if length ts > 0 then capitalize (ts ! 0) @ '' is such a hot topic right now.''
         else ''Thanks for sharing your thoughts.''),
      ''Love this take'' @ about_topic '' on '' ts @
        ''! Mind if I ask what got you interested in this area?'']"
| "templates Question ctx ts =
     [''Really curious about your thoughts on '' @ item_or ts 0 ''this topic'' @
        ''. What's been your experience with it?'',
      ''This is fascinating! How did you first get involved with '' @
        item_or ts 0 ''this area'' @ ''?'',
      ''Great insights'' @ to_author '' '' ctx @
        ''! What would you say is the biggest challenge in '' @
        item_or ts 0 ''this field'' @ '' right now?'']"
| "templates Humorous ctx ts =
     [(if sentiment ctx = ''positive'' then ''Your enthusiasm is infectious! '' @ emoji 0x1F604
       else ''Well, that escalated quickly! '' @ emoji 0x1F605) @ '' '' @
        (if length ts > 0 then ''The '' @ ts ! 0 @ '' struggle is real!''
         else ''Can totally relate to this!''),
      ''Plot twist: I was just thinking about this exact thing! '' @
        (if length ts > 0 then ''Great minds think about '' @ ts ! 0 @ '' apparently '' @ emoji 0x1F9E0
         else ''Universe works in mysterious ways! '' @ emoji 0x1F31F),
      ''Not me reading this and nodding like I'm in a meeting '' @ emoji 0x1F602 @ '' '' @
        (if length ts > 0 then capitalize (ts ! 0) @ '' hits different!''
         else ''So accurate it hurts!'')]"
| "templates Professional ctx ts =
     [''Thank you for sharing these insights'' @ about_topic '' on '' ts @
        ''. This perspective adds valuable context to the current industry discussion.'',
      ''Excellent analysis'' @ to_author '', '' ctx @ ''. The point about '' @
        item_or ts 0 ''this approach'' @
        '' particularly resonates with current best practices.'',
      ''This contributes meaningfully to the conversation around '' @
        item_or ts 0 ''this topic'' @
        ''. Would be interested to connect and discuss further.'']"

definition generateFallbackReplies :: "reply_context \<Rightarrow> tone \<Rightarrow> error + string list" where
  "generateFallbackReplies ctx tone =
     (case topics ctx of
        None \<Rightarrow> Inl TypeError
      | Some ts \<Rightarrow> Inr (templates tone ctx ts))"

subsection \<open>generateAndShowReplies\<close>

text \<open>
  What the panel ends up showing: the replies of the remote path, or after its failure
  those of the templates, or after theirs the line that no reply could be generated.
\<close>

datatype display = Replies "string list" | Unable

definition generateAndShowReplies ::
  "reply_context \<Rightarrow> tone \<Rightarrow> response \<Rightarrow> response \<Rightarrow> display" where
  "generateAndShowReplies ctx tone answer1 answer2 =
     (case generateContextAwareReplies ctx tone answer1 answer2 of
        Inr replies \<Rightarrow> Replies replies
      | Inl e \<Rightarrow>
          (case generateFallbackReplies ctx tone of
             Inr fallbackReplies \<Rightarrow> Replies fallbackReplies
           | Inl fallbackError \<Rightarrow> Unable))"

lemma trim_Nil: "trim [] = []"
  by (simp add: trim_def)

lemma nonempty_lines_nonempty: "line \<in> set (nonempty_lines s) \<Longrightarrow> line \<noteq> []"
  by (auto simp: nonempty_lines_def trim_Nil)

lemma pad_replies_Inr:
  "pad_replies lines = Inr replies \<Longrightarrow> length replies = 3 \<and> set replies \<subseteq> set lines"
  by (auto simp: pad_replies_def Let_def min_def split: if_splits dest: in_set_takeD)

lemma pad_replies_short: "length lines < 3 \<Longrightarrow> pad_replies lines = Inl ReferenceError"
  by (simp add: pad_replies_def)

lemma callAIAPI_Inr:
  assumes "callAIAPI config prompt answer = Inr replies"
  shows "length replies = 3 \<and> (\<forall>r \<in> set replies. r \<noteq> [])"
proof -
  from assms obtain lines where p: "pad_replies lines = Inr replies"
    and l: "lines = [] \<or> (\<exists>s. lines = nonempty_lines s)"
    by (auto simp: callAIAPI_def split: response.splits body.splits if_splits)
  from pad_replies_Inr [OF p] l show ?thesis
    by (auto dest: nonempty_lines_nonempty)
qed

lemma templates_three:
  "length (templates tone ctx ts) = 3 \<and> (\<forall>r \<in> set (templates tone ctx ts). r \<noteq> [])"
  by (cases tone) simp_all

lemma generateAndShowReplies_with_topics:
  assumes "topics ctx = Some ts"
  shows "\<exists>replies. generateAndShowReplies ctx tone answer1 answer2 = Replies replies \<and>
    length replies = 3 \<and> (\<forall>r \<in> set replies. r \<noteq> [])"
proof (cases "generateContextAwareReplies ctx tone answer1 answer2")
  case (Inr replies)
  then obtain config prompt answer where "callAIAPI config prompt answer = Inr replies"
    by (auto simp: generateContextAwareReplies_def split: sum.splits)
  from callAIAPI_Inr [OF this] Inr show ?thesis
    by (simp add: generateAndShowReplies_def)
next
  case (Inl e)
  with assms templates_three [of tone ctx ts] show ?thesis
    by (simp add: generateAndShowReplies_def generateFallbackReplies_def)
qed

lemma generateAndShowReplies_without_topics:
  "topics ctx = None \<Longrightarrow> generateAndShowReplies ctx tone answer1 answer2 = Unable"
  by (simp add: generateAndShowReplies_def generateContextAwareReplies_def
      buildContextPrompt_def Let_def generateFallbackReplies_def)

subsection \<open>A context and a short answer\<close>

definition video_context :: reply_context where
  "video_context =
     \<lparr>platform = ''YouTube'', postContent = ''A short video about sourdough baking'',
      postTitle = ''Sourdough'', authorInfo = Channel ''Anna Baker'' ''12K subscribers'',
      existingComments = [], timestamp = ''2024-01-01T00:00:00.000Z'',
      sentiment = ''neutral'', topics = Some [''sourdough'', ''baking''], postType = None,
      videoStats = Some ([], None)\<rparr>"

definition one_line :: response where
  "one_line = Response True ''200 OK'' (GeneratedText ''Nice video!'')"

text \<open>
  C1. An endpoint answers with one line. \<open>callAIAPI\<close> does not fill the list up to three:
  the filling loop raises, for the primary endpoint and for the second one, and the line
  of the answer is lost. With both endpoints answering so the panel shows the three
  templates of the tone; for a context without \<open>topics\<close> (the one
  \<open>extractComprehensiveContext\<close> returns after a failure) it shows no reply at all.
\<close>

theorem callAIAPI_short_answer:
  "callAIAPI primary ''p'' one_line = Inl ReferenceError \<and>
   callAIAPI fallback ''p'' one_line = Inl ReferenceError \<and>
   generateContextAwareReplies video_context Supportive one_line one_line =
     Inl (Error ''All APIs failed'') \<and>
   generateAndShowReplies video_context Supportive one_line one_line =
     Replies (templates Supportive video_context [''sourdough'', ''baking'']) \<and>
   generateAndShowReplies (video_context\<lparr>topics := None\<rparr>) Supportive one_line one_line =
     Unable"
proof -
  have l: "nonempty_lines ''Nice video!'' = [''Nice video!'']"
    by (simp add: nonempty_lines_def trim_def is_space_char_def)
  have a: "callAIAPI config ''p'' one_line = Inl ReferenceError" for config
    by (simp add: callAIAPI_def one_line_def l pad_replies_def)
  have t: "topics video_context = Some [''sourdough'', ''baking'']"
    by (simp add: video_context_def)
  obtain prompt where b: "buildContextPrompt video_context Supportive = Inr prompt"
    by (simp add: buildContextPrompt_def Let_def t)
  have a': "callAIAPI config prompt one_line = Inl ReferenceError" for config
    by (simp add: callAIAPI_def one_line_def l pad_replies_def)
  have g: "generateContextAwareReplies video_context Supportive one_line one_line =
      Inl (Error ''All APIs failed'')"
    by (simp add: generateContextAwareReplies_def b a')
  have s: "generateAndShowReplies video_context Supportive one_line one_line =
      Replies (templates Supportive video_context [''sourdough'', ''baking''])"
    by (simp add: generateAndShowReplies_def g generateFallbackReplies_def t
        del: templates.simps)
  have u: "generateAndShowReplies (video_context\<lparr>topics := None\<rparr>) Supportive one_line one_line
      = Unable"
    by (simp add: generateAndShowReplies_without_topics)
  from a g s u show ?thesis by simp
qed

section \<open>Context extractor\<close>





subsection \<open>YouTube\<close>











subsection \<open>LinkedIn\<close>






subsection \<open>extractComprehensiveContext\<close>



text \<open>
  One statement of the \<open>try\<close> block that reads the page and stores what it read. The
  state is the exception raised so far, if any, and the context as built so far: after an
  exception nothing more is read or stored.
\<close>

definition assign ::
  "error + 'a \<Rightarrow> ('a \<Rightarrow> reply_context \<Rightarrow> reply_context) \<Rightarrow>
   error option \<times> reply_context \<Rightarrow> error option \<times> reply_context" where
  "assign reading store state =
     (case state of
        (Some e, ctx) \<Rightarrow> (Some e, ctx)
      | (None, ctx) \<Rightarrow>
          (case reading of Inl e \<Rightarrow> (Some e, ctx) | Inr v \<Rightarrow> (None, store v ctx)))"



subsection \<open>extractPostContent of content.js\<close>





lemma assign_failed:
  "fst (assign reading store state) \<noteq> None \<Longrightarrow>
   snd (assign reading store state) = snd state \<and>
   (fst state \<noteq> None \<or> (\<exists>e. reading = Inl e))"
  by (auto simp: assign_def split: prod.splits option.splits sum.splits)

lemma assign_done:
  "fst (assign reading store state) = None \<Longrightarrow>
   fst state = None \<and> (\<exists>v. reading = Inr v \<and> snd (assign reading store state) = store v (snd state))"
  by (auto simp: assign_def split: prod.splits option.splits sum.splits)





subsection \<open>A page whose description cannot be read\<close>










end
